theory Spec2Isabelle
  imports Main
begin

text \<open>
  A model of \<open>server.go\<close>, the caching proxy for the game's assets: the two request
  handlers, the lookup in the local cache (\<open>serveLocalFile\<close>), the proxy that streams
  an origin response to the client and into the cache (\<open>proxyAndCache\<close>), and the bulk
  downloader (\<open>downloadFile\<close>, \<open>downloadWithWorkers\<close>) with its registry of downloads
  in flight. Functions keep the names they have in the source; a Go function that
  changes the file tree, the registry or the response takes the state and returns it.
\<close>

section \<open>Strings\<close>

text \<open>
  Go strings and byte slices are byte sequences; both are modelled as \<open>char list\<close>
  (an Isabelle \<open>char\<close> is one byte). The functions below are the ones the server
  calls from package \<open>strings\<close> and \<open>path/filepath\<close>.
\<close>

type_synonym bytes = string

definition HasPrefix :: "string \<Rightarrow> string \<Rightarrow> bool" where
  "HasPrefix s p = (take (length p) s = p)"

definition HasSuffix :: "string \<Rightarrow> string \<Rightarrow> bool" where
  "HasSuffix s suf = (length suf \<le> length s \<and> drop (length s - length suf) s = suf)"

definition TrimPrefix :: "string \<Rightarrow> string \<Rightarrow> string" where
  "TrimPrefix s p = (if HasPrefix s p then drop (length p) s else s)"

definition TrimSuffix :: "string \<Rightarrow> string \<Rightarrow> string" where
  "TrimSuffix s suf = (if HasSuffix s suf then take (length s - length suf) s else s)"

fun Contains :: "string \<Rightarrow> string \<Rightarrow> bool" where
  "Contains [] sub = (sub = [])"
| "Contains (c # cs) sub = (HasPrefix (c # cs) sub \<or> Contains cs sub)"

text \<open>
  \<open>strings.ToLower\<close> follows the Unicode tables (it maps some letters outside ASCII to
  ASCII ones) and is a parameter of the environment below. On ASCII text it is this
  function, which the examples use.
\<close>

definition lowerChar :: "char \<Rightarrow> char" where
  "lowerChar c =
     (let n = (of_char c :: nat) in if 65 \<le> n \<and> n \<le> 90 then char_of (n + 32) else c)"

definition lowerASCII :: "string \<Rightarrow> string" where
  "lowerASCII s = map lowerChar s"

text \<open>\<open>filepath.Ext\<close>: the suffix from the last dot of the last path element.\<close>

fun Ext :: "string \<Rightarrow> string" where
  "Ext [] = []"
| "Ext (c # cs) =
     (if Ext cs \<noteq> [] then Ext cs
      else if c = CHR ''.'' \<and> CHR ''/'' \<notin> set cs then c # cs else [])"

text \<open>
  The segments of a path are its pieces between slashes; a parent-directory segment is
  a segment equal to \<open>..\<close>. The server has no such function: it is the notion the
  traversal claims are stated with.
\<close>

fun segments :: "string \<Rightarrow> string list" where
  "segments [] = [[]]"
| "segments (c # cs) =
     (if c = CHR ''/'' then [] # segments cs
      else (case segments cs of [] \<Rightarrow> [[c]] | seg # rest \<Rightarrow> (c # seg) # rest))"

definition hasParentSegment :: "string \<Rightarrow> bool" where
  "hasParentSegment p = (''..'' \<in> set (segments p))"

section \<open>Requests, responses and the state of the process\<close>

type_synonym header = "string \<Rightarrow> string list option"

definition Get :: "header \<Rightarrow> string \<Rightarrow> string" where
  "Get h k = (case h k of Some (v # _) \<Rightarrow> v | _ \<Rightarrow> [])"

record request =
  Method :: string
  urlPath :: string
  rawQuery :: string
  reqHeader :: header

text \<open>
  What the \<open>http.ResponseWriter\<close> has received: \<open>status = 0\<close> while no status line
  has been written.
\<close>

record response =
  status :: nat
  outHeader :: header
  body :: bytes

definition emptyResponse :: response where
  "emptyResponse = \<lparr>status = 0, outHeader = (\<lambda>_. None), body = []\<rparr>"

datatype node = File bytes | Dir

text \<open>
  Every call that leaves the process is recorded, in order: file system calls, reads
  of the embedded bundle, origin requests, reads of a response body (\<open>ReadBody n\<close>:
  the body was read, \<open>n\<close> bytes of it) and the operations on the registry.
\<close>

datatype op =
    Stat string | Open string | ServeFile string
  | MkdirAll string | CreateTemp string | Create string
  | Rename string string | Remove string
  | ReadEmbedded string
  | Fetch string | ReadBody nat
  | Load string | LoadOrStore string | Delete string

record state =
  fs :: "string \<Rightarrow> node option"
  activeDownloads :: "string set"
  w :: response
  ops :: "op list"

definition emit :: "op \<Rightarrow> state \<Rightarrow> state" where
  "emit x s = s\<lparr>ops := ops s @ [x]\<rparr>"

definition WriteHeader :: "nat \<Rightarrow> state \<Rightarrow> state" where
  "WriteHeader code s = (if status (w s) = 0 then s\<lparr>w := (w s)\<lparr>status := code\<rparr>\<rparr> else s)"

definition Write :: "bytes \<Rightarrow> state \<Rightarrow> state" where
  "Write bs s = (let s' = WriteHeader 200 s in s'\<lparr>w := (w s')\<lparr>body := body (w s') @ bs\<rparr>\<rparr>)"

definition setHeader :: "string \<Rightarrow> string \<Rightarrow> state \<Rightarrow> state" where
  "setHeader k v s = s\<lparr>w := (w s)\<lparr>outHeader := (outHeader (w s))(k \<mapsto> [v])\<rparr>\<rparr>"

definition delHeader :: "string \<Rightarrow> state \<Rightarrow> state" where
  "delHeader k s = s\<lparr>w := (w s)\<lparr>outHeader := (outHeader (w s))(k := None)\<rparr>\<rparr>"

text \<open>\<open>http.Error\<close> and \<open>http.NotFound\<close> of the standard library.\<close>

definition http_Error :: "string \<Rightarrow> nat \<Rightarrow> state \<Rightarrow> state" where
  "http_Error msg code s =
     Write (msg @ [CHR 0x0A])
       (WriteHeader code
         (setHeader ''X-Content-Type-Options'' ''nosniff''
           (setHeader ''Content-Type'' ''text/plain; charset=utf-8''
             (delHeader ''Content-Length'' s))))"

definition http_NotFound :: "state \<Rightarrow> state" where
  "http_NotFound s = http_Error ''404 page not found'' 404 s"

section \<open>The environment\<close>

text \<open>
  Configuration, library functions whose tables or algorithms are not part of the
  repository, and the faults the operating system and the network can inject.
\<close>

text \<open>
  The result of running a decompressor over a complete input: the bytes it produced,
  how many input bytes it pulled, and whether it stopped with an error.
\<close>

record decoded =
  out :: bytes
  used :: nat
  bad :: bool

text \<open>
  An origin response as \<open>httpClient.Do\<close> returns it: the body is the bytes the origin
  sends and whether the transfer then breaks (\<open>brokenBody\<close>) instead of ending.
  \<open>ContentLength\<close> is \<open>-1\<close> when the origin declares none.
\<close>

record upstream =
  StatusCode :: nat
  ContentLength :: int
  Header :: header
  Body :: bytes
  brokenBody :: bool

text \<open>
  The fields of the environment:
  \<^item> \<open>downloadDir\<close>, \<open>cdn\<close>, \<open>workers\<close>: the flags of the same names; \<open>distFS\<close>: the
    embedded bundle;
  \<^item> \<open>filepath_Join\<close>, \<open>filepath_Dir\<close>, \<open>TypeByExtension\<close>, \<open>ToLower\<close>: \<open>filepath.Join\<close>,
    \<open>filepath.Dir\<close>, \<open>mime.TypeByExtension\<close> and \<open>strings.ToLower\<close>;
  \<^item> \<open>fileServer\<close>: what \<open>http.ServeFile\<close> makes of a request, a file name, the file tree
    and the response so far (status, headers and body; it answers ranges, conditional
    requests and HEAD in its own ways);
  \<^item> \<open>brotli_Reader\<close>: the brotli decoder; \<open>gzip_Reader\<close>: the gzip decoder, \<open>None\<close> when
    \<open>gzip.NewReader\<close> rejects the header;
  \<^item> \<open>newRequestFails\<close>: \<open>http.NewRequest\<close> rejects the method or the URL; \<open>httpDo\<close>:
    \<open>httpClient.Do\<close> for a method, a URL and request headers, \<open>None\<close> when the request
    fails (connection, timeout);
  \<^item> \<open>statFails\<close>: \<open>os.Stat\<close> fails with an error other than not-exist; \<open>openFails\<close>,
    \<open>mkdirFails\<close>, \<open>createFails\<close>, \<open>renameFails\<close>: the call on that path fails;
  \<^item> \<open>tempName\<close>: the name \<open>os.CreateTemp\<close> picks beside a path;
  \<^item> \<open>diskLimit\<close>: how many bytes a file can take before a write to it fails, and
    \<open>clientLimit\<close>: how many bytes the client takes before a write to it fails
    (\<open>None\<close>: no failure);
  \<^item> \<open>others\<close>: what other goroutines do to the file tree between the two existence
    checks of \<open>downloadFile\<close>.
  \<open>os.MkdirAll\<close> is recorded with its outcome only: the file tree maps the paths that
  are looked up, and no function here looks up a directory it has created.
\<close>

record env =
  downloadDir :: string
  cdn :: string
  workers :: int
  distFS :: "string \<Rightarrow> bytes option"
  filepath_Join :: "string \<Rightarrow> string \<Rightarrow> string"
  filepath_Dir :: "string \<Rightarrow> string"
  TypeByExtension :: "string \<Rightarrow> string"
  ToLower :: "string \<Rightarrow> string"
  fileServer :: "request \<Rightarrow> string \<Rightarrow> (string \<Rightarrow> node option) \<Rightarrow> response \<Rightarrow> response"
  brotli_Reader :: "bytes \<Rightarrow> decoded"
  gzip_Reader :: "bytes \<Rightarrow> decoded option"
  newRequestFails :: "string \<Rightarrow> string \<Rightarrow> bool"
  httpDo :: "string \<Rightarrow> string \<Rightarrow> header \<Rightarrow> upstream option"
  statFails :: "string \<Rightarrow> bool"
  openFails :: "string \<Rightarrow> bool"
  mkdirFails :: "string \<Rightarrow> bool"
  createFails :: "string \<Rightarrow> bool"
  tempName :: "string \<Rightarrow> string"
  renameFails :: "string \<Rightarrow> string \<Rightarrow> bool"
  diskLimit :: "string \<Rightarrow> nat option"
  clientLimit :: "nat option"
  others :: "(string \<Rightarrow> node option) \<Rightarrow> (string \<Rightarrow> node option)"

section \<open>Files\<close>

datatype stat_result = IsFile | IsDir | NotExist | StatError

definition stat_of :: "env \<Rightarrow> (string \<Rightarrow> node option) \<Rightarrow> string \<Rightarrow> stat_result" where
  "stat_of e f p =
     (if statFails e p then StatError
      else case f p of None \<Rightarrow> NotExist | Some (File _) \<Rightarrow> IsFile | Some Dir \<Rightarrow> IsDir)"

definition os_Stat :: "env \<Rightarrow> string \<Rightarrow> state \<Rightarrow> stat_result \<times> state" where
  "os_Stat e p s = (stat_of e (fs s) p, emit (Stat p) s)"

text \<open>\<open>os.Open\<close>: the content of a regular file, or nothing.\<close>

definition os_Open :: "env \<Rightarrow> string \<Rightarrow> state \<Rightarrow> bytes option \<times> state" where
  "os_Open e p s =
     (if openFails e p then None
      else case fs s p of Some (File bs) \<Rightarrow> Some bs | _ \<Rightarrow> None,
      emit (Open p) s)"

definition os_Remove :: "string \<Rightarrow> state \<Rightarrow> state" where
  "os_Remove p s = emit (Remove p) (s\<lparr>fs := (fs s)(p := None)\<rparr>)"

text \<open>\<open>os.Rename\<close>: \<open>True\<close> is success; the source must exist.\<close>

definition os_Rename :: "env \<Rightarrow> string \<Rightarrow> string \<Rightarrow> state \<Rightarrow> bool \<times> state" where
  "os_Rename e src dst s =
     (if renameFails e src dst \<or> fs s src = None then (False, emit (Rename src dst) s)
      else (True, emit (Rename src dst) (s\<lparr>fs := ((fs s)(src := None))(dst := fs s src)\<rparr>)))"

section \<open>Copying streams\<close>

text \<open>
  A stream is the bytes it yields and whether it then ends with an error instead of
  end-of-file. \<open>io.LimitReader\<close> reports end-of-file once the limit is reached.
\<close>

type_synonym stream = "bytes \<times> bool"

definition LimitReader :: "stream \<Rightarrow> nat \<Rightarrow> stream" where
  "LimitReader r n = (if n \<le> length (fst r) then (take n (fst r), False) else r)"

text \<open>
  \<open>io.Copy\<close> into a sink that accepts at most \<open>limit\<close> bytes (\<open>None\<close>: any number),
  taking the source one byte per read: what the sink received, how many bytes were
  pulled from the source, and whether the copy returned an error.
\<close>

record copied =
  written :: bytes
  pulled :: nat
  copyFailed :: bool

definition io_Copy :: "nat option \<Rightarrow> stream \<Rightarrow> copied" where
  "io_Copy limit r =
     (case limit of
        None \<Rightarrow> \<lparr>written = fst r, pulled = length (fst r), copyFailed = snd r\<rparr>
      | Some k \<Rightarrow>
          if k < length (fst r)
          then \<lparr>written = take k (fst r), pulled = Suc k, copyFailed = True\<rparr>
          else \<lparr>written = fst r, pulled = length (fst r), copyFailed = snd r\<rparr>)"

text \<open>
  \<open>io.TeeReader\<close> over a file that accepts at most \<open>limit\<close> bytes: the stream its
  reader sees (a failed write ends it with an error, and the byte whose write failed
  does not reach the reader), and the bytes the file holds once the reader has pulled
  \<open>n\<close> bytes.
\<close>

definition TeeReader :: "nat option \<Rightarrow> stream \<Rightarrow> stream" where
  "TeeReader limit r =
     (case limit of
        None \<Rightarrow> r
      | Some k \<Rightarrow> if k < length (fst r) then (take k (fst r), True) else r)"

definition teed :: "nat option \<Rightarrow> stream \<Rightarrow> nat \<Rightarrow> bytes" where
  "teed limit r n = take (case limit of None \<Rightarrow> n | Some k \<Rightarrow> min k n) (fst r)"

text \<open>
  A decompressing reader over a stream: the decoder's run over the bytes of the stream.
  The reader reports end-of-file only when its source has (it has then pulled every
  byte), and a stream that ends with an error makes the reader end with that error.
\<close>

definition decompress :: "(bytes \<Rightarrow> decoded) \<Rightarrow> stream \<Rightarrow> decoded" where
  "decompress dec r =
     (let d = dec (fst r)
      in \<lparr>out = out d,
          used = (if bad d then min (used d) (length (fst r)) else length (fst r)),
          bad = (bad d \<or> snd r)\<rparr>)"

section \<open>Serving from the cache\<close>

text \<open>
  \<open>http.ServeFile\<close>: the library writes the response for the file, from the request
  and the response headers set so far.
\<close>

definition http_ServeFile :: "env \<Rightarrow> request \<Rightarrow> string \<Rightarrow> state \<Rightarrow> state" where
  "http_ServeFile e r p s = (emit (ServeFile p) s)\<lparr>w := fileServer e r p (fs s) (w s)\<rparr>"

text \<open>
  The content type \<open>serveLocalFile\<close> sets: by the extension of the name without
  variant suffix, with a default, and fixed for \<open>.wasm\<close>.
\<close>

definition contentTypeFor :: "env \<Rightarrow> string \<Rightarrow> string" where
  "contentTypeFor e basePath =
     (let contentType0 = TypeByExtension e (Ext basePath);
          contentType1 = (if contentType0 = [] then ''application/octet-stream'' else contentType0)
      in if HasSuffix basePath ''.wasm'' then ''application/wasm'' else contentType1)"

text \<open>
  The second half of \<open>serveLocalFile\<close>, from the content type on, once \<open>servePath\<close>
  and \<open>encoding\<close> are settled.
\<close>

definition serveResolved ::
    "env \<Rightarrow> request \<Rightarrow> bool \<Rightarrow> string \<Rightarrow> string \<Rightarrow> string \<Rightarrow> state \<Rightarrow> bool \<times> state" where
  "serveResolved e r clientAcceptsBr basePath servePath encoding s0 =
     (let s1 = setHeader ''Content-Type'' (contentTypeFor e basePath) s0
      in if encoding = ''br'' \<and> \<not> clientAcceptsBr then
           (case os_Open e servePath s1 of
              (None, s2) \<Rightarrow> (True, http_Error ''Internal server error'' 500 s2)
            | (Some bs, s2) \<Rightarrow>
                (True, Write (written (io_Copy (clientLimit e) (out (brotli_Reader e bs), False))) s2))
         else
           (let s2 = (if encoding \<noteq> [] then setHeader ''Content-Encoding'' encoding s1 else s1)
            in (True, http_ServeFile e r servePath s2)))"

definition serveLocalFile :: "env \<Rightarrow> request \<Rightarrow> string \<Rightarrow> state \<Rightarrow> bool \<times> state" where
  "serveLocalFile e r localPath s0 =
     (let acceptEncoding = ToLower e (Get (reqHeader r) ''Accept-Encoding'');
          clientAcceptsBr = Contains acceptEncoding ''br'';
          clientAcceptsGzip = Contains acceptEncoding ''gzip'';
          basePath = TrimSuffix (TrimSuffix localPath ''.br'') ''.gz'';
          isBrFile = HasSuffix localPath ''.br'';
          isGzFile = HasSuffix localPath ''.gz'';
          (servePath1, encoding1, s1) =
            (if clientAcceptsBr then
               (let brPath = basePath @ ''.br''; (st, s') = os_Stat e brPath s0
                in if st = IsFile then (brPath, ''br'', s') else ([], [], s'))
             else ([], [], s0));
          (servePath2, encoding2, s2) =
            (if servePath1 = [] \<and> clientAcceptsGzip then
               (let gzPath = basePath @ ''.gz''; (st, s') = os_Stat e gzPath s1
                in if st = IsFile then (gzPath, ''gzip'', s') else (servePath1, encoding1, s'))
             else (servePath1, encoding1, s1))
      in if servePath2 = [] then
           (case os_Stat e localPath s2 of
              (NotExist, s3) \<Rightarrow> (False, s3)
            | (StatError, s3) \<Rightarrow> (True, http_Error ''Internal server error'' 500 s3)
            | (IsDir, s3) \<Rightarrow> (False, s3)
            | (IsFile, s3) \<Rightarrow>
                serveResolved e r clientAcceptsBr basePath localPath
                  (if isBrFile then ''br'' else if isGzFile then ''gzip'' else []) s3)
         else serveResolved e r clientAcceptsBr basePath servePath2 encoding2 s2)"

section \<open>The registry of downloads in flight\<close>

text \<open>
  \<open>activeDownloads\<close> is a \<open>sync.Map\<close> used as a set of destination paths. Each of its
  methods is one atomic step: \<open>LoadOrStore\<close> reports whether the key was present and
  leaves it present, \<open>Delete\<close> removes it, \<open>Load\<close> only looks.
\<close>

definition sync_LoadOrStore :: "string \<Rightarrow> string set \<Rightarrow> bool \<times> string set" where
  "sync_LoadOrStore k m = (k \<in> m, insert k m)"

definition sync_Delete :: "string \<Rightarrow> string set \<Rightarrow> string set" where
  "sync_Delete k m = m - {k}"

definition sync_Load :: "string \<Rightarrow> string set \<Rightarrow> bool" where
  "sync_Load k m = (k \<in> m)"

section \<open>Proxying and caching\<close>

definition maxProxySize :: nat where
  "maxProxySize = 500 * 1024 * 1024"

text \<open>
  The upstream request carries the inbound headers except \<open>Host\<close> and
  \<open>Accept-Encoding\<close>; the response headers reach the client except three.
\<close>

definition forwardedHeaders :: "env \<Rightarrow> header \<Rightarrow> header" where
  "forwardedHeaders e h =
     (\<lambda>k. if ToLower e k \<noteq> ''host'' \<and> ToLower e k \<noteq> ''accept-encoding'' then h k else None)"

definition copyHeaders :: "env \<Rightarrow> header \<Rightarrow> state \<Rightarrow> state" where
  "copyHeaders e h s =
     s\<lparr>w := (w s)\<lparr>outHeader :=
        (\<lambda>k. if h k \<noteq> None \<and> ToLower e k \<noteq> ''transfer-encoding'' \<and> ToLower e k \<noteq> ''connection''
                  \<and> ToLower e k \<noteq> ''content-security-policy''
              then h k else outHeader (w s) k)\<rparr>\<rparr>"

text \<open>
  The block the function repeats for every response it does not cache: the body goes to
  the client, through the brotli reader when \<open>needDecompress\<close>; a copy error is logged.
  Under the brotli reader the number of body bytes read is the decoder's, for its whole
  run.
\<close>

definition copyToClient :: "env \<Rightarrow> bool \<Rightarrow> stream \<Rightarrow> state \<Rightarrow> state" where
  "copyToClient e needDecompress limitedBody s =
     (if needDecompress then
        (let d = decompress (brotli_Reader e) limitedBody;
             c = io_Copy (clientLimit e) (out d, bad d)
         in Write (written c) (emit (ReadBody (used d)) s))
      else
        (let c = io_Copy (clientLimit e) limitedBody
         in Write (written c) (emit (ReadBody (pulled c)) s)))"

text \<open>
  The shared pass: \<open>io.TeeReader\<close> over the limited body and the temp file, copied to
  the client directly or through the brotli reader. The result is what the client
  received, how many body bytes were read, and \<open>copyErr\<close>.
\<close>

definition sharedPass :: "env \<Rightarrow> bool \<Rightarrow> stream \<Rightarrow> string \<Rightarrow> bytes \<times> nat \<times> bool" where
  "sharedPass e needDecompress limitedBody tempFileName =
     (let teeReader = TeeReader (diskLimit e tempFileName) limitedBody
      in if needDecompress then
           (let brReader = decompress (brotli_Reader e) teeReader;
                c = io_Copy (clientLimit e) (out brReader, bad brReader)
            in (written c, used brReader, copyFailed c))
         else
           (let c = io_Copy (clientLimit e) teeReader
            in (written c, pulled c, copyFailed c)))"

text \<open>
  The end of \<open>proxyAndCache\<close>, from the tee on. The temp file exists (empty) when it
  starts; \<open>tempFile.Close\<close> leaves in it what the tee wrote.
\<close>

definition teeAndCommit ::
    "env \<Rightarrow> string \<Rightarrow> bool \<Rightarrow> stream \<Rightarrow> string \<Rightarrow> state \<Rightarrow> state" where
  "teeAndCommit e localPath needDecompress limitedBody tempFileName s0 =
     (case sharedPass e needDecompress limitedBody tempFileName of
        (sent, n, copyErr) \<Rightarrow>
          (let s1 = Write sent (emit (ReadBody n) s0);
               s2 = s1\<lparr>fs := (fs s1)(tempFileName \<mapsto>
                                 File (teed (diskLimit e tempFileName) limitedBody n))\<rparr>
           in if copyErr then os_Remove tempFileName s2
              else (case os_Rename e tempFileName localPath s2 of
                      (True, s3) \<Rightarrow> s3
                    | (False, s3) \<Rightarrow> os_Remove tempFileName s3)))"

text \<open>
  \<open>proxyAndCache\<close>. The text of the transport error, which the source appends to
  \<open>Proxy error: \<close>, is left out.
\<close>

definition proxyAndCache :: "env \<Rightarrow> request \<Rightarrow> string \<Rightarrow> string \<Rightarrow> state \<Rightarrow> state" where
  "proxyAndCache e r url localPath s0 =
     (case serveLocalFile e r localPath s0 of
        (True, s1) \<Rightarrow> s1
      | (False, s1) \<Rightarrow>
          (let alreadyDownloading = sync_Load localPath (activeDownloads s1);
               s2 = emit (Load localPath) s1
           in if newRequestFails e (Method r) url
              then http_Error ''Proxy error: failed to create request'' 502 s2
              else
                (case httpDo e (Method r) url (forwardedHeaders e (reqHeader r)) of
                   None \<Rightarrow> http_Error ''Proxy error: '' 502 (emit (Fetch url) s2)
                 | Some resp \<Rightarrow>
                     (let s3 = emit (Fetch url) s2
                      in if ContentLength resp > int maxProxySize
                         then http_Error ''Response too large'' 502 s3
                         else
                           (let limitedBody = LimitReader (Body resp, brokenBody resp) maxProxySize;
                                s4 = copyHeaders e (Header resp) s3;
                                isBrFile = HasSuffix url ''.br'';
                                clientAcceptsBr =
                                  Contains (ToLower e (Get (reqHeader r) ''Accept-Encoding'')) ''br'';
                                needDecompress = (isBrFile \<and> \<not> clientAcceptsBr);
                                s5 = (if needDecompress
                                      then delHeader ''Content-Length'' (delHeader ''Content-Encoding'' s4)
                                      else s4)
                            in if StatusCode resp \<noteq> 200 then
                                 copyToClient e needDecompress limitedBody
                                   (WriteHeader (StatusCode resp) s5)
                               else if alreadyDownloading then
                                 copyToClient e needDecompress limitedBody
                                   (WriteHeader (StatusCode resp) s5)
                               else if mkdirFails e (filepath_Dir e localPath) then
                                 copyToClient e needDecompress limitedBody
                                   (WriteHeader (StatusCode resp)
                                     (emit (MkdirAll (filepath_Dir e localPath)) s5))
                               else if createFails e (tempName e localPath) then
                                 copyToClient e needDecompress limitedBody
                                   (WriteHeader (StatusCode resp)
                                     (emit (CreateTemp (filepath_Dir e localPath))
                                       (emit (MkdirAll (filepath_Dir e localPath)) s5)))
                               else
                                 (let tempFileName = tempName e localPath;
                                      s6 = emit (CreateTemp (filepath_Dir e localPath))
                                             (emit (MkdirAll (filepath_Dir e localPath)) s5);
                                      s7 = s6\<lparr>fs := (fs s6)(tempFileName \<mapsto> File [])\<rparr>
                                  in teeAndCommit e localPath needDecompress limitedBody
                                       tempFileName (WriteHeader (StatusCode resp) s7)))))))"

text \<open>
  The conditions under which \<open>proxyAndCache\<close> gets as far as the shared pass: no local
  file, an origin response within the declared-length cap and with status 200, no
  download of \<open>localPath\<close> in flight, and the cache directory and temp file created.
\<close>

definition reachesSharedPass ::
    "env \<Rightarrow> request \<Rightarrow> string \<Rightarrow> string \<Rightarrow> state \<Rightarrow> upstream \<Rightarrow> bool" where
  "reachesSharedPass e r url localPath s resp =
     (\<not> fst (serveLocalFile e r localPath s)
      \<and> \<not> newRequestFails e (Method r) url
      \<and> httpDo e (Method r) url (forwardedHeaders e (reqHeader r)) = Some resp
      \<and> \<not> ContentLength resp > int maxProxySize
      \<and> StatusCode resp = 200
      \<and> localPath \<notin> activeDownloads s
      \<and> \<not> mkdirFails e (filepath_Dir e localPath)
      \<and> \<not> createFails e (tempName e localPath))"

section \<open>The handlers\<close>

definition serveIndex :: "env \<Rightarrow> state \<Rightarrow> state" where
  "serveIndex e s0 =
     (case distFS e ''dist/index.html'' of
        None \<Rightarrow> http_Error ''index.html not found'' 404 (emit (ReadEmbedded ''dist/index.html'') s0)
      | Some content \<Rightarrow>
          Write content (setHeader ''Content-Type'' ''text/html; charset=utf-8''
            (emit (ReadEmbedded ''dist/index.html'') s0)))"

definition handleRoot :: "env \<Rightarrow> request \<Rightarrow> state \<Rightarrow> state" where
  "handleRoot e r s0 =
     (if urlPath r = ''/'' then serveIndex e s0
      else
        (let cleanedPath = TrimPrefix (urlPath r) ''/''
         in if Contains cleanedPath ''..'' then http_NotFound s0
            else
              (let filePath = ''dist/'' @ cleanedPath;
                   s1 = emit (ReadEmbedded filePath) s0
               in case distFS e filePath of
                    None \<Rightarrow> http_NotFound s1
                  | Some data \<Rightarrow>
                      (let contentType0 = TypeByExtension e (Ext cleanedPath);
                           contentType = (if contentType0 = [] then ''application/octet-stream''
                                          else contentType0)
                       in Write data (setHeader ''Content-Type'' contentType s1)))))"

definition handleVcsky :: "env \<Rightarrow> request \<Rightarrow> state \<Rightarrow> state" where
  "handleVcsky e r s0 =
     (let path = TrimPrefix (urlPath r) ''/vcsky/''
      in if Contains path ''..'' then http_NotFound s0
         else
           (let localPath = filepath_Join e (downloadDir e) path
            in case serveLocalFile e r localPath s0 of
                 (True, s1) \<Rightarrow> s1
               | (False, s1) \<Rightarrow>
                   (let url0 = cdn e @ path;
                        url = (if rawQuery r \<noteq> [] then url0 @ ''?'' @ rawQuery r else url0)
                    in proxyAndCache e r url localPath s1)))"

section \<open>The bulk downloader\<close>

datatype error =
    MkdirError | RequestError | TransportError | StatusError nat | GzipHeaderError
  | CreateError | CopyError | RenameError
  | FailedToDownload int nat string

text \<open>
  The body \<open>downloadFile\<close> copies: the response body, through the decoder the
  \<open>Content-Encoding\<close> header names. \<open>gzip.NewReader\<close> can fail on the header.
  The result is the stream and the number of body bytes read for it.
\<close>

definition bodyReader :: "env \<Rightarrow> upstream \<Rightarrow> (stream \<times> nat) option" where
  "bodyReader e resp =
     (let enc = Get (Header resp) ''Content-Encoding''
      in if enc = ''br'' then
           (let d = decompress (brotli_Reader e) (Body resp, brokenBody resp)
            in Some ((out d, bad d), used d))
         else if enc = ''gzip'' then
           (case gzip_Reader e (Body resp) of
              None \<Rightarrow> None
            | Some g \<Rightarrow>
                (let d = decompress (\<lambda>_. g) (Body resp, brokenBody resp)
                 in Some ((out d, bad d), used d)))
         else Some ((Body resp, brokenBody resp), length (Body resp)))"

text \<open>\<open>downloadFile\<close> from the re-check on: the part the claim is held for.\<close>

definition downloadClaimed :: "env \<Rightarrow> string \<Rightarrow> string \<Rightarrow> state \<Rightarrow> error option \<times> state" where
  "downloadClaimed e url destPath s0 =
     (case os_Stat e destPath s0 of
        (st, s1) \<Rightarrow>
          if st = IsFile \<or> st = IsDir then (None, s1)
          else
            (let s2 = emit (MkdirAll (filepath_Dir e destPath)) s1
             in if mkdirFails e (filepath_Dir e destPath) then (Some MkdirError, s2)
                else if newRequestFails e ''GET'' url then (Some RequestError, s2)
                else
                  (let s3 = emit (Fetch url) s2
                   in case httpDo e ''GET'' url [''Accept-Encoding'' \<mapsto> [''gzip, br'']] of
                        None \<Rightarrow> (Some TransportError, s3)
                      | Some resp \<Rightarrow>
                          if StatusCode resp \<noteq> 200 then (Some (StatusError (StatusCode resp)), s3)
                          else
                            (case bodyReader e resp of
                               None \<Rightarrow> (Some GzipHeaderError, s3)
                             | Some (reader, n) \<Rightarrow>
                                 (let tmpPath = destPath @ ''.tmp'';
                                      s4 = emit (Create tmpPath) s3
                                  in if createFails e tmpPath then (Some CreateError, s4)
                                     else
                                       (let c = io_Copy (diskLimit e tmpPath) reader;
                                            s5 = emit (ReadBody n) s4;
                                            s6 = s5\<lparr>fs := (fs s5)(tmpPath \<mapsto> File (written c))\<rparr>
                                        in if copyFailed c then (Some CopyError, os_Remove tmpPath s6)
                                           else
                                             (case os_Rename e tmpPath destPath s6 of
                                                (True, s7) \<Rightarrow> (None, s7)
                                              | (False, s7) \<Rightarrow> (Some RenameError, s7))))))))"

text \<open>
  \<open>downloadFile\<close>. The deferred \<open>activeDownloads.Delete\<close> runs when the claimed part
  returns, whatever it returns. Between the first check and the re-check other
  goroutines run: \<open>others\<close> is what they do to the file tree meanwhile.
\<close>

definition downloadFile :: "env \<Rightarrow> string \<Rightarrow> string \<Rightarrow> state \<Rightarrow> error option \<times> state" where
  "downloadFile e url destPath s0 =
     (case os_Stat e destPath s0 of
        (st, s1) \<Rightarrow>
          if st = IsFile \<or> st = IsDir then (None, s1)
          else
            (case sync_LoadOrStore destPath (activeDownloads s1) of
               (True, m) \<Rightarrow> (None, (emit (LoadOrStore destPath) s1)\<lparr>activeDownloads := m\<rparr>)
             | (False, m) \<Rightarrow>
                 (let s2 = (emit (LoadOrStore destPath) s1)\<lparr>activeDownloads := m\<rparr>;
                      s3 = s2\<lparr>fs := others e (fs s2)\<rparr>
                  in case downloadClaimed e url destPath s3 of
                       (res, s4) \<Rightarrow>
                         (res, (emit (Delete destPath) s4)
                                 \<lparr>activeDownloads := sync_Delete destPath (activeDownloads s4)\<rparr>))))"

record counters =
  downloaded :: int
  skipped :: int
  failed :: int

text \<open>The body of a worker's loop, for one name taken from the channel.\<close>

definition worker ::
    "env \<Rightarrow> string \<Rightarrow> string \<Rightarrow> string \<Rightarrow> counters \<times> state \<Rightarrow> counters \<times> state" where
  "worker e baseURL outputDir file cs =
     (let c = fst cs; destPath = filepath_Join e outputDir file
      in case os_Stat e destPath (snd cs) of
           (st, s1) \<Rightarrow>
             if st = IsFile \<or> st = IsDir then (c\<lparr>skipped := skipped c + 1\<rparr>, s1)
             else
               (let url = baseURL @ ''/'' @ file
                in case downloadFile e url destPath s1 of
                     (Some err, s2) \<Rightarrow> (c\<lparr>failed := failed c + 1\<rparr>, s2)
                   | (None, s2) \<Rightarrow> (c\<lparr>downloaded := downloaded c + 1\<rparr>, s2)))"

text \<open>
  The channel hands every name to exactly one worker; the names are taken here in the
  order they were sent.
\<close>

fun drain ::
    "env \<Rightarrow> string \<Rightarrow> string \<Rightarrow> string list \<Rightarrow> counters \<times> state \<Rightarrow> counters \<times> state" where
  "drain e baseURL outputDir [] cs = cs"
| "drain e baseURL outputDir (file # files) cs =
     drain e baseURL outputDir files (worker e baseURL outputDir file cs)"

text \<open>
  \<open>downloadWithWorkers\<close> returns, or panics in \<open>make\<close> on a negative channel size, or
  blocks on the first send when there is no worker to receive it.
\<close>

datatype run = Returned "error option" counters state | Panicked | Blocked

definition downloadWithWorkers ::
    "env \<Rightarrow> string list \<Rightarrow> string \<Rightarrow> string \<Rightarrow> string \<Rightarrow> state \<Rightarrow> run" where
  "downloadWithWorkers e files baseURL outputDir label s0 =
     (if workers e < 0 then Panicked
      else if workers e = 0 \<and> files \<noteq> [] then Blocked
      else
        (let total = length files;
             (c, s1) = drain e baseURL outputDir files
                         (\<lparr>downloaded = 0, skipped = 0, failed = 0\<rparr>, s0);
             failedCount = failed c
         in if failedCount > 0
            then Returned (Some (FailedToDownload failedCount total label)) c s1
            else Returned None c s1))"

section \<open>Concurrent callers of the claim\<close>

text \<open>
  Several goroutines run \<open>downloadFile\<close> at once, goroutine \<open>i\<close> for the path
  \<open>dest i\<close>. What they share is the registry, and each of its methods is atomic, so a
  run of the system is an interleaving of these steps of \<open>downloadFile\<close>: the first
  existence check (which returns or goes on, depending on the file tree), the
  \<open>LoadOrStore\<close> (which returns when the key was present and otherwise takes the
  claim), and the return from the claimed part, where the deferred \<open>Delete\<close> runs.
\<close>

datatype pc = AtStat | AtClaim | Holding | Done

record system =
  registry :: "string set"
  at :: "nat \<Rightarrow> pc"

definition initial :: system where
  "initial = \<lparr>registry = {}, at = (\<lambda>_. AtStat)\<rparr>"

inductive step :: "(nat \<Rightarrow> string) \<Rightarrow> system \<Rightarrow> system \<Rightarrow> bool" for dest where
  found: "at c i = AtStat \<Longrightarrow> step dest c (c\<lparr>at := (at c)(i := Done)\<rparr>)"
| missing: "at c i = AtStat \<Longrightarrow> step dest c (c\<lparr>at := (at c)(i := AtClaim)\<rparr>)"
| claim: "at c i = AtClaim \<Longrightarrow> sync_LoadOrStore (dest i) (registry c) = (loaded, m) \<Longrightarrow>
          step dest c \<lparr>registry = m, at = (at c)(i := (if loaded then Done else Holding))\<rparr>"
| release: "at c i = Holding \<Longrightarrow>
          step dest c \<lparr>registry = sync_Delete (dest i) (registry c), at = (at c)(i := Done)\<rparr>"

inductive reachable :: "(nat \<Rightarrow> string) \<Rightarrow> system \<Rightarrow> bool" for dest where
  at_start: "reachable dest initial"
| after_step: "reachable dest c \<Longrightarrow> step dest c c' \<Longrightarrow> reachable dest c'"

text \<open>The goroutines that hold a claim.\<close>

definition holders :: "system \<Rightarrow> nat set" where
  "holders c = {i. at c i = Holding}"

section \<open>Example inputs\<close>

text \<open>
  A small environment for the worked examples: no faults, ASCII lowercasing, a file
  server that answers with the whole file, a two-bytes-per-byte stand-in for the brotli
  decoder and a reversing stand-in for gzip, an origin that answers nothing. The examples override the fields they need.
\<close>

definition exampleEnv :: env where
  "exampleEnv =
     \<lparr>downloadDir = ''/cache'', cdn = ''https://cdn.dos.zone/vcsky/'', workers = 8,
      distFS = (\<lambda>_. None),
      filepath_Join = (\<lambda>d p. d @ ''/'' @ p),
      filepath_Dir = (\<lambda>p. rev (drop 1 (dropWhile (\<lambda>c. c \<noteq> CHR ''/'') (rev p)))),
      TypeByExtension = (\<lambda>_. []),
      ToLower = lowerASCII,
      fileServer = (\<lambda>r p f wr.
        case f p of
          Some (File bs) \<Rightarrow>
            wr\<lparr>status := (if status wr = 0 then 200 else status wr), body := body wr @ bs\<rparr>
        | _ \<Rightarrow> wr\<lparr>status := 404\<rparr>),
      brotli_Reader = (\<lambda>bs. \<lparr>out = concat (map (\<lambda>c. [c, c]) bs), used = length bs, bad = False\<rparr>),
      gzip_Reader = (\<lambda>bs. Some \<lparr>out = rev bs, used = length bs, bad = False\<rparr>),
      newRequestFails = (\<lambda>_ _. False),
      httpDo = (\<lambda>_ _ _. None),
      statFails = (\<lambda>_. False), openFails = (\<lambda>_. False), mkdirFails = (\<lambda>_. False),
      createFails = (\<lambda>_. False),
      tempName = (\<lambda>p. rev (drop 1 (dropWhile (\<lambda>c. c \<noteq> CHR ''/'') (rev p))) @ ''/.tmp-1''),
      renameFails = (\<lambda>_ _. False),
      diskLimit = (\<lambda>_. None), clientLimit = None,
      others = (\<lambda>f. f)\<rparr>"

definition emptyState :: state where
  "emptyState = \<lparr>fs = (\<lambda>_. None), activeDownloads = {}, w = emptyResponse, ops = []\<rparr>"

definition plainRequest :: "string \<Rightarrow> request" where
  "plainRequest p = \<lparr>Method = ''GET'', urlPath = p, rawQuery = [], reqHeader = (\<lambda>_. None)\<rparr>"

text \<open>A cache that holds a file whose name has two dots in a row.\<close>

definition cachedDots :: state where
  "cachedDots = emptyState\<lparr>fs := [''/cache/a..b.mp3'' \<mapsto> File ''RIFF'']\<rparr>"




text \<open>
  An origin that answers every request with one response, a response with status 200
  and no declared length, a disk that takes two bytes per file, and a file system that
  refuses every rename.
\<close>

definition origin :: "upstream \<Rightarrow> env" where
  "origin resp = exampleEnv\<lparr>httpDo := (\<lambda>_ _ _. Some resp)\<rparr>"

definition okResponse :: "bytes \<Rightarrow> upstream" where
  "okResponse bs =
     \<lparr>StatusCode = 200, ContentLength = - 1, Header = (\<lambda>_. None), Body = bs, brokenBody = False\<rparr>"

definition fullDisk :: "upstream \<Rightarrow> env" where
  "fullDisk resp = (origin resp)\<lparr>diskLimit := (\<lambda>_. Some 2)\<rparr>"

definition noRename :: "upstream \<Rightarrow> env" where
  "noRename resp = (origin resp)\<lparr>renameFails := (\<lambda>_ _. True)\<rparr>"

text \<open>
  A request for a brotli asset with a query string, and a cache that holds that asset.
\<close>

definition versionedRequest :: request where
  "versionedRequest = (plainRequest ''/vcsky/data.br'')\<lparr>rawQuery := ''v=1''\<rparr>"

definition cachedBr :: state where
  "cachedBr = emptyState\<lparr>fs := [''/cache/data.br'' \<mapsto> File ''hello'']\<rparr>"

text \<open>A body one byte longer than the cap.\<close>

definition oversized :: bytes where
  "oversized = replicate (maxProxySize + 1) CHR ''x''"

text \<open>
  For the downloader: a cache that already holds the file, a registry in which another
  fetch holds the claim on it, and an environment in which another goroutine puts the
  file in place between the first check and the re-check.
\<close>

definition cachedState :: state where
  "cachedState = emptyState\<lparr>fs := [''/cache/a.bin'' \<mapsto> File ''x'']\<rparr>"

definition claimedState :: state where
  "claimedState = emptyState\<lparr>activeDownloads := {''/cache/a.bin''}\<rparr>"

definition finishedMeanwhile :: "upstream \<Rightarrow> env" where
  "finishedMeanwhile resp = (origin resp)\<lparr>others := (\<lambda>f. f(''/cache/a.bin'' \<mapsto> File ''x''))\<rparr>"

text \<open>
  For the bulk downloader: an origin that has \<open>a.adf\<close> and answers 500 for everything
  else, and a cache that already holds \<open>c.adf\<close>.
\<close>

definition mixedOrigin :: env where
  "mixedOrigin =
     exampleEnv\<lparr>httpDo := (\<lambda>m u h.
        if u = ''https://cdn.dos.zone/vcsky/fetched/audio/a.adf'' then Some (okResponse ''hello'')
        else Some ((okResponse [])\<lparr>StatusCode := 500\<rparr>))\<rparr>"

definition audioCache :: state where
  "audioCache = emptyState\<lparr>fs := [''/cache/fetched/audio/c.adf'' \<mapsto> File ''x'']\<rparr>"

text \<open>
  Two goroutines after the same path: the first holds the claim, the second has been
  turned away.
\<close>

definition twoCallers :: system where
  "twoCallers = \<lparr>registry = {''/cache/a.bin''}, at = (\<lambda>_. AtStat)(0 := Holding, 1 := Done)\<rparr>"

section \<open>Facts about the string functions\<close>

lemma HasPrefix_iff: "HasPrefix s p \<longleftrightarrow> (\<exists>b. s = p @ b)"
  unfolding HasPrefix_def
  by (metis append_eq_conv_conj append_take_drop_id)

lemma Contains_iff: "Contains s sub \<longleftrightarrow> (\<exists>a b. s = a @ sub @ b)"
proof (induction s)
  case Nil
  then show ?case by auto
next
  case (Cons c cs)
  show ?case
  proof
    assume "Contains (c # cs) sub"
    then consider "HasPrefix (c # cs) sub" | "Contains cs sub" by auto
    then show "\<exists>a b. c # cs = a @ sub @ b"
    proof cases
      case 1
      then obtain b where "c # cs = sub @ b" by (auto simp: HasPrefix_iff)
      then have "c # cs = [] @ sub @ b" by simp
      then show ?thesis by blast
    next
      case 2
      then obtain a b where "cs = a @ sub @ b" using Cons.IH by auto
      then have "c # cs = (c # a) @ sub @ b" by simp
      then show ?thesis by blast
    qed
  next
    assume "\<exists>a b. c # cs = a @ sub @ b"
    then obtain a b where ab: "c # cs = a @ sub @ b" by auto
    show "Contains (c # cs) sub"
    proof (cases a)
      case Nil
      then have "HasPrefix (c # cs) sub" using ab by (auto simp: HasPrefix_iff)
      then show ?thesis by simp
    next
      case (Cons x a')
      then have "cs = a' @ sub @ b" using ab by simp
      then have "Contains cs sub" using Cons.IH by blast
      then show ?thesis by simp
    qed
  qed
qed

lemma segments_nonempty: "segments p \<noteq> []"
  by (induction p) (auto split: list.splits)

lemma segments_hd: "segments p = s0 # rest \<Longrightarrow> \<exists>b. p = s0 @ b"
proof (induction p arbitrary: s0 rest)
  case Nil
  then show ?case by simp
next
  case (Cons c cs)
  show ?case
  proof (cases "c = CHR ''/''")
    case True
    then have "s0 = []" using Cons.prems by simp
    then show ?thesis by simp
  next
    case False
    obtain t0 rest' where sr: "segments cs = t0 # rest'"
      using segments_nonempty by (cases "segments cs") auto
    then obtain b where "cs = t0 @ b" using Cons.IH by blast
    moreover have "s0 = c # t0" using False sr Cons.prems by simp
    ultimately show ?thesis by simp
  qed
qed

lemma segments_infix: "seg \<in> set (segments p) \<Longrightarrow> \<exists>a b. p = a @ seg @ b"
proof (induction p arbitrary: seg)
  case Nil
  then show ?case by simp
next
  case (Cons c cs)
  show ?case
  proof (cases "c = CHR ''/''")
    case True
    then have "seg = [] \<or> seg \<in> set (segments cs)" using Cons.prems by auto
    then show ?thesis
    proof
      assume "seg = []"
      then have "c # cs = [] @ seg @ (c # cs)" by simp
      then show ?thesis by blast
    next
      assume "seg \<in> set (segments cs)"
      then obtain a b where "cs = a @ seg @ b" using Cons.IH by blast
      then have "c # cs = (c # a) @ seg @ b" by simp
      then show ?thesis by blast
    qed
  next
    case False
    obtain s0 rest where sr: "segments cs = s0 # rest"
      using segments_nonempty by (cases "segments cs") auto
    then have "seg = c # s0 \<or> seg \<in> set rest" using False Cons.prems by auto
    then show ?thesis
    proof
      assume h: "seg = c # s0"
      obtain b where "cs = s0 @ b" using segments_hd [OF sr] by blast
      then have "c # cs = [] @ seg @ b" using h by simp
      then show ?thesis by blast
    next
      assume "seg \<in> set rest"
      then have "seg \<in> set (segments cs)" using sr by simp
      then obtain a b where "cs = a @ seg @ b" using Cons.IH by blast
      then have "c # cs = (c # a) @ seg @ b" by simp
      then show ?thesis by blast
    qed
  qed
qed

lemma parent_segment_Contains: "hasParentSegment p \<Longrightarrow> Contains p ''..''"
  unfolding hasParentSegment_def Contains_iff by (rule segments_infix)

lemma Contains_dots_Cons: "c \<noteq> CHR ''.'' \<Longrightarrow> Contains (c # cs) ''..'' = Contains cs ''..''"
  by (simp add: HasPrefix_def)

lemma Contains_TrimPrefix_vcsky:
  "Contains (TrimPrefix p ''/vcsky/'') ''..'' = Contains p ''..''"
proof (cases "HasPrefix p ''/vcsky/''")
  case True
  then obtain b where "p = ''/vcsky/'' @ b" by (auto simp: HasPrefix_iff)
  then show ?thesis by (simp add: TrimPrefix_def HasPrefix_def)
next
  case False
  then show ?thesis by (simp add: TrimPrefix_def)
qed

lemma Contains_TrimPrefix_slash:
  "Contains (TrimPrefix p ''/'') ''..'' = Contains p ''..''"
proof (cases "HasPrefix p ''/''")
  case True
  then obtain b where "p = ''/'' @ b" by (auto simp: HasPrefix_iff)
  then show ?thesis by (simp add: TrimPrefix_def HasPrefix_def)
next
  case False
  then show ?thesis by (simp add: TrimPrefix_def)
qed

section \<open>Facts about the state\<close>


lemma w_emit [simp]: "w (emit x s) = w s" and fs_emit [simp]: "fs (emit x s) = fs s"
  and active_emit [simp]: "activeDownloads (emit x s) = activeDownloads s"
  and ops_emit [simp]: "ops (emit x s) = ops s @ [x]"
  by (simp_all add: emit_def)

lemma sync_Load_iff [simp]: "sync_Load k m = (k \<in> m)"
  by (simp add: sync_Load_def)

lemma basic_fs [simp]:
  "fs (Write bs s) = fs s" "fs (WriteHeader c s) = fs s" "fs (setHeader k v s) = fs s"
  "fs (delHeader k s) = fs s" "fs (http_Error m c s) = fs s" "fs (copyHeaders e h s) = fs s"
  by (simp_all add: Write_def WriteHeader_def setHeader_def delHeader_def http_Error_def
        copyHeaders_def Let_def)

lemma basic_active [simp]:
  "activeDownloads (Write bs s) = activeDownloads s"
  "activeDownloads (WriteHeader c s) = activeDownloads s"
  "activeDownloads (setHeader k v s) = activeDownloads s"
  "activeDownloads (delHeader k s) = activeDownloads s"
  "activeDownloads (http_Error m c s) = activeDownloads s"
  "activeDownloads (copyHeaders e h s) = activeDownloads s"
  by (simp_all add: Write_def WriteHeader_def setHeader_def delHeader_def http_Error_def
        copyHeaders_def Let_def)

lemma basic_ops [simp]:
  "ops (Write bs s) = ops s" "ops (WriteHeader c s) = ops s" "ops (setHeader k v s) = ops s"
  "ops (delHeader k s) = ops s" "ops (http_Error m c s) = ops s" "ops (copyHeaders e h s) = ops s"
  by (simp_all add: Write_def WriteHeader_def setHeader_def delHeader_def http_Error_def
        copyHeaders_def Let_def)

lemma os_Stat_snd [simp]: "snd (os_Stat e p s) = emit (Stat p) s"
  and os_Stat_fst [simp]: "fst (os_Stat e p s) = stat_of e (fs s) p"
  by (simp_all add: os_Stat_def)

lemma os_Open_snd [simp]: "snd (os_Open e p s) = emit (Open p) s"
  by (simp add: os_Open_def)

lemma http_ServeFile_simps [simp]:
  "fs (http_ServeFile e r p s) = fs s" "activeDownloads (http_ServeFile e r p s) = activeDownloads s"
  "ops (http_ServeFile e r p s) = ops s @ [ServeFile p]"
  "w (http_ServeFile e r p s) = fileServer e r p (fs s) (w s)"
  by (simp_all add: http_ServeFile_def)

lemma serveResolved_keeps:
  "fs (snd (serveResolved e r a b p enc s)) = fs s"
  "activeDownloads (snd (serveResolved e r a b p enc s)) = activeDownloads s"
  by (auto simp add: serveResolved_def Let_def os_Open_def
        split: prod.splits option.splits)

lemma serveLocalFile_keeps:
  "fs (snd (serveLocalFile e r p s)) = fs s"
  "activeDownloads (snd (serveLocalFile e r p s)) = activeDownloads s"
  by (auto simp add: serveLocalFile_def Let_def os_Stat_def serveResolved_keeps
        split: prod.splits stat_result.splits)

section \<open>Path traversal\<close>

lemma http_NotFound_effects:
  "fs (http_NotFound s) = fs s" "ops (http_NotFound s) = ops s"
  "activeDownloads (http_NotFound s) = activeDownloads s"
  "status (w s) = 0 \<Longrightarrow> status (w (http_NotFound s)) = 404"
  by (simp_all add: http_NotFound_def http_Error_def Write_def WriteHeader_def setHeader_def
        delHeader_def Let_def)

lemma http_NotFound_body:
  "body (w (http_NotFound s)) = body (w s) @ ''404 page not found'' @ [CHR 0x0A]"
  by (simp add: http_NotFound_def http_Error_def Write_def WriteHeader_def setHeader_def
        delHeader_def Let_def)

text \<open>
  C3. A request whose path, after the \<open>/vcsky/\<close> prefix is stripped, has a
  parent-directory segment is answered 404 by \<open>handleVcsky\<close>, and no operation is
  recorded for it: no stat, open, write, rename or fetch; the file tree and the
  in-flight registry are as before.
\<close>

theorem handleVcsky_parent_segment:
  assumes "hasParentSegment (TrimPrefix (urlPath r) ''/vcsky/'')"
  shows "ops (handleVcsky e r s) = ops s
       \<and> fs (handleVcsky e r s) = fs s
       \<and> activeDownloads (handleVcsky e r s) = activeDownloads s
       \<and> (status (w s) = 0 \<longrightarrow> status (w (handleVcsky e r s)) = 404)"
proof -
  have "Contains (TrimPrefix (urlPath r) ''/vcsky/'') ''..''"
    using assms by (rule parent_segment_Contains)
  then have "handleVcsky e r s = http_NotFound s"
    by (simp add: handleVcsky_def)
  then show ?thesis by (simp add: http_NotFound_effects)
qed

theorem handleVcsky_parent_segment_witness:
  "hasParentSegment (TrimPrefix (urlPath (plainRequest ''/vcsky/data/../../etc/passwd'')) ''/vcsky/'')
   \<and> ops (handleVcsky exampleEnv (plainRequest ''/vcsky/data/../../etc/passwd'') emptyState) = []
   \<and> status (w (handleVcsky exampleEnv (plainRequest ''/vcsky/data/../../etc/passwd'') emptyState)) = 404"
proof -
  have h: "hasParentSegment (TrimPrefix (urlPath (plainRequest ''/vcsky/data/../../etc/passwd'')) ''/vcsky/'')"
    by (simp add: hasParentSegment_def plainRequest_def TrimPrefix_def HasPrefix_def)
  have s0: "status (w emptyState) = 0" "ops emptyState = []"
    by (simp_all add: emptyState_def emptyResponse_def)
  show ?thesis
    using h s0 handleVcsky_parent_segment [OF h, of exampleEnv emptyState] by simp
qed

text \<open>
  C9. The filter is a substring test. A request path with two dots in a row anywhere is
  answered 404 by \<open>handleVcsky\<close> and by \<open>handleRoot\<close> with nothing looked up,
  opened or fetched, whatever the cache holds; every path with a parent-directory
  segment has two dots in a row, and \<open>a..b.mp3\<close> has them without having such a
  segment, so the filter rejects strictly more than whole \<open>..\<close> segments.
\<close>

theorem dotdot_filter_is_substring_check:
  "(Contains (urlPath r) ''..'' \<longrightarrow>
      ops (handleVcsky e r s) = ops s \<and> fs (handleVcsky e r s) = fs s
      \<and> body (w (handleVcsky e r s)) = body (w s) @ ''404 page not found'' @ [CHR 0x0A]
      \<and> (status (w s) = 0 \<longrightarrow> status (w (handleVcsky e r s)) = 404)
      \<and> ops (handleRoot e r s) = ops s \<and> fs (handleRoot e r s) = fs s
      \<and> body (w (handleRoot e r s)) = body (w s) @ ''404 page not found'' @ [CHR 0x0A]
      \<and> (status (w s) = 0 \<longrightarrow> status (w (handleRoot e r s)) = 404))
   \<and> (hasParentSegment p \<longrightarrow> Contains p ''..'')
   \<and> Contains ''a..b.mp3'' ''..'' \<and> \<not> hasParentSegment ''a..b.mp3''"
proof -
  have A: "handleVcsky e r s = http_NotFound s \<and> handleRoot e r s = http_NotFound s"
    if c: "Contains (urlPath r) ''..''"
  proof -
    have "urlPath r \<noteq> ''/''" using c by (auto simp: HasPrefix_def)
    moreover have "Contains (TrimPrefix (urlPath r) ''/vcsky/'') ''..''"
      using c by (simp add: Contains_TrimPrefix_vcsky)
    moreover have "Contains (TrimPrefix (urlPath r) ''/'') ''..''"
      using c by (simp add: Contains_TrimPrefix_slash)
    ultimately show ?thesis by (simp add: handleVcsky_def handleRoot_def)
  qed
  have B: "hasParentSegment p \<longrightarrow> Contains p ''..''"
    by (simp add: parent_segment_Contains)
  have C: "Contains ''a..b.mp3'' ''..'' \<and> \<not> hasParentSegment ''a..b.mp3''"
    by (simp add: HasPrefix_def hasParentSegment_def)
  show ?thesis using A B C by (simp add: http_NotFound_effects http_NotFound_body)
qed

theorem dotdot_filter_is_substring_check_witness:
  "Contains (urlPath (plainRequest ''/vcsky/a..b.mp3'')) ''..''
   \<and> fs cachedDots (filepath_Join exampleEnv (downloadDir exampleEnv) ''a..b.mp3'') = Some (File ''RIFF'')
   \<and> ops (handleVcsky exampleEnv (plainRequest ''/vcsky/a..b.mp3'') cachedDots) = []
   \<and> status (w (handleVcsky exampleEnv (plainRequest ''/vcsky/a..b.mp3'') cachedDots)) = 404
   \<and> status (w (handleRoot exampleEnv (plainRequest ''/vcsky/a..b.mp3'') cachedDots)) = 404
   \<and> hasParentSegment ''a/../b'' \<and> Contains ''a/../b'' ''..''"
proof -
  have h: "Contains (urlPath (plainRequest ''/vcsky/a..b.mp3'')) ''..''"
    by (simp add: plainRequest_def HasPrefix_def)
  have p: "hasParentSegment ''a/../b''"
    by (simp add: hasParentSegment_def)
  have s0: "status (w cachedDots) = 0" "ops cachedDots = []"
    "fs cachedDots (filepath_Join exampleEnv (downloadDir exampleEnv) ''a..b.mp3'') = Some (File ''RIFF'')"
    by (simp_all add: cachedDots_def emptyState_def emptyResponse_def exampleEnv_def)
  show ?thesis
    using h p s0
      dotdot_filter_is_substring_check [of "plainRequest ''/vcsky/a..b.mp3''" exampleEnv cachedDots "''a/../b''"]
    by simp
qed

section \<open>The shared pass of the proxy\<close>

text \<open>The three kinds of error of the shared pass, read off its inputs.\<close>

lemma sharedPass_read_error:
  "snd limitedBody \<Longrightarrow> snd (snd (sharedPass e nd limitedBody tmp))"
  by (auto simp add: sharedPass_def Let_def TeeReader_def io_Copy_def decompress_def
        split: option.splits)

lemma sharedPass_disk_error:
  "diskLimit e tmp = Some k \<Longrightarrow> k < length (fst limitedBody)
   \<Longrightarrow> snd (snd (sharedPass e nd limitedBody tmp))"
  by (auto simp add: sharedPass_def Let_def TeeReader_def io_Copy_def decompress_def
        split: option.splits)

lemma sharedPass_client_error:
  "clientLimit e = Some k \<Longrightarrow> k < length (fst limitedBody)
   \<Longrightarrow> snd (snd (sharedPass e False limitedBody tmp))"
  by (auto simp add: sharedPass_def Let_def TeeReader_def io_Copy_def
        split: option.splits)

lemma sharedPass_client_error_decompress:
  "clientLimit e = Some k \<Longrightarrow> k < length (out (brotli_Reader e (fst limitedBody)))
   \<Longrightarrow> snd (snd (sharedPass e True limitedBody tmp))"
  by (auto simp add: sharedPass_def Let_def TeeReader_def io_Copy_def decompress_def
        split: option.splits)

lemma sharedPass_decode_error:
  "bad (brotli_Reader e (fst limitedBody)) \<Longrightarrow> snd (snd (sharedPass e True limitedBody tmp))"
  by (auto simp add: sharedPass_def Let_def TeeReader_def io_Copy_def decompress_def
        split: option.splits)

text \<open>Without an error the temp file holds the whole limited body.\<close>

lemma sharedPass_complete:
  assumes "\<not> snd (snd (sharedPass e nd limitedBody tmp))"
  shows "teed (diskLimit e tmp) limitedBody (fst (snd (sharedPass e nd limitedBody tmp)))
         = fst limitedBody"
    and "fst (sharedPass e nd limitedBody tmp)
         = (if nd then out (brotli_Reader e (fst limitedBody)) else fst limitedBody)"
    and "fst (snd (sharedPass e nd limitedBody tmp)) = length (fst limitedBody)"
  using assms
  by (auto simp add: sharedPass_def Let_def TeeReader_def io_Copy_def decompress_def teed_def
        split: option.splits if_splits)

lemma sharedPass_no_error:
  assumes "\<not> snd limitedBody"
      and "\<forall>k. diskLimit e tmp = Some k \<longrightarrow> length (fst limitedBody) \<le> k"
      and "\<forall>k. clientLimit e = Some k \<longrightarrow>
             length (if nd then out (brotli_Reader e (fst limitedBody)) else fst limitedBody) \<le> k"
      and "nd \<longrightarrow> \<not> bad (brotli_Reader e (fst limitedBody))"
  shows "\<not> snd (snd (sharedPass e nd limitedBody tmp))"
  using assms
  by (auto simp add: sharedPass_def Let_def TeeReader_def io_Copy_def decompress_def
        split: option.splits if_splits)

lemma teeAndCommit_error:
  assumes "snd (snd (sharedPass e nd limitedBody tmp))"
  shows "fs (teeAndCommit e localPath nd limitedBody tmp s) = (fs s)(tmp := None)"
    and "ops (teeAndCommit e localPath nd limitedBody tmp s)
         = ops s @ [ReadBody (fst (snd (sharedPass e nd limitedBody tmp))), Remove tmp]"
    and "body (w (teeAndCommit e localPath nd limitedBody tmp s))
         = body (w s) @ fst (sharedPass e nd limitedBody tmp)"
  using assms
  by (auto simp add: teeAndCommit_def Let_def os_Remove_def Write_def WriteHeader_def emit_def
        split: prod.splits)

lemma teeAndCommit_commit:
  assumes "\<not> snd (snd (sharedPass e nd limitedBody tmp))" "\<not> renameFails e tmp localPath"
  shows "fs (teeAndCommit e localPath nd limitedBody tmp s)
         = ((fs s)(tmp := None))(localPath \<mapsto> File (fst limitedBody))"
    and "ops (teeAndCommit e localPath nd limitedBody tmp s)
         = ops s @ [ReadBody (length (fst limitedBody)), Rename tmp localPath]"
    and "body (w (teeAndCommit e localPath nd limitedBody tmp s))
         = body (w s) @ (if nd then out (brotli_Reader e (fst limitedBody)) else fst limitedBody)"
  using assms sharedPass_complete [OF assms(1)]
  by (auto simp add: teeAndCommit_def Let_def os_Rename_def Write_def WriteHeader_def emit_def
        split: prod.splits)

lemma teeAndCommit_rename_fails:
  assumes "\<not> snd (snd (sharedPass e nd limitedBody tmp))" "renameFails e tmp localPath"
  shows "fs (teeAndCommit e localPath nd limitedBody tmp s) = (fs s)(tmp := None)"
    and "ops (teeAndCommit e localPath nd limitedBody tmp s)
         = ops s @ [ReadBody (length (fst limitedBody)), Rename tmp localPath, Remove tmp]"
    and "body (w (teeAndCommit e localPath nd limitedBody tmp s))
         = body (w s) @ (if nd then out (brotli_Reader e (fst limitedBody)) else fst limitedBody)"
  using assms sharedPass_complete [OF assms(1)]
  by (auto simp add: teeAndCommit_def Let_def os_Rename_def os_Remove_def Write_def
        WriteHeader_def emit_def split: prod.splits)

lemma teeAndCommit_status:
  "status (w s) \<noteq> 0 \<Longrightarrow> status (w (teeAndCommit e localPath nd limitedBody tmp s)) = status (w s)"
  by (auto simp add: teeAndCommit_def Let_def os_Rename_def os_Remove_def Write_def
        WriteHeader_def emit_def split: prod.splits)

lemma copyToClient_keeps [simp]:
  "fs (copyToClient e nd lb s) = fs s"
  "activeDownloads (copyToClient e nd lb s) = activeDownloads s"
  by (simp_all add: copyToClient_def Let_def)

lemma serveResolved_handled: "fst (serveResolved e r a b p enc s)"
  by (simp add: serveResolved_def Let_def split: prod.splits option.splits)

lemma serveLocalFile_unhandled:
  assumes "serveLocalFile e r p s = (False, s1)"
  shows "w s1 = w s" "fs s1 = fs s" "activeDownloads s1 = activeDownloads s"
proof -
  have "snd (serveLocalFile e r p s) = s1" using assms by simp
  then show "fs s1 = fs s" "activeDownloads s1 = activeDownloads s"
    using serveLocalFile_keeps [of e r p s] by auto
  have "\<not> fst (serveLocalFile e r p s) \<longrightarrow> w (snd (serveLocalFile e r p s)) = w s"
    using serveResolved_handled
    by (auto simp add: serveLocalFile_def Let_def os_Stat_def
          split: prod.splits stat_result.splits)
  then show "w s1 = w s" using assms by simp
qed

text \<open>The path of \<open>proxyAndCache\<close> that reaches the shared pass.\<close>

lemma proxyAndCache_caching:
  assumes "serveLocalFile e r localPath s = (False, s1)"
      and "\<not> newRequestFails e (Method r) url"
      and "httpDo e (Method r) url (forwardedHeaders e (reqHeader r)) = Some resp"
      and "\<not> ContentLength resp > int maxProxySize"
      and "StatusCode resp = 200"
      and "localPath \<notin> activeDownloads s1"
      and "\<not> mkdirFails e (filepath_Dir e localPath)"
      and "\<not> createFails e (tempName e localPath)"
  obtains s0 where
    "proxyAndCache e r url localPath s
       = teeAndCommit e localPath
           (HasSuffix url ''.br''
              \<and> \<not> Contains (ToLower e (Get (reqHeader r) ''Accept-Encoding'')) ''br'')
           (LimitReader (Body resp, brokenBody resp) maxProxySize) (tempName e localPath) s0"
    "fs s0 = (fs s)(tempName e localPath \<mapsto> File [])"
    "ops s0 = ops s1 @ [Load localPath, Fetch url, MkdirAll (filepath_Dir e localPath),
                        CreateTemp (filepath_Dir e localPath)]"
    "body (w s0) = body (w s)"
    "status (w s) = 0 \<longrightarrow> status (w s0) = 200"
proof -
  define nd where "nd = (HasSuffix url ''.br''
                  \<and> \<not> Contains (ToLower e (Get (reqHeader r) ''Accept-Encoding'')) ''br'')"
  define s4 where "s4 = copyHeaders e (Header resp) (emit (Fetch url) (emit (Load localPath) s1))"
  define s5 where "s5 = (if nd then delHeader ''Content-Length'' (delHeader ''Content-Encoding'' s4)
                         else s4)"
  define s6 where "s6 = emit (CreateTemp (filepath_Dir e localPath))
                          (emit (MkdirAll (filepath_Dir e localPath)) s5)"
  define s0 where "s0 = WriteHeader 200 (s6\<lparr>fs := (fs s6)(tempName e localPath \<mapsto> File [])\<rparr>)"
  note u = serveLocalFile_unhandled [OF assms(1)]
  have eq: "proxyAndCache e r url localPath s
           = teeAndCommit e localPath nd
               (LimitReader (Body resp, brokenBody resp) maxProxySize) (tempName e localPath) s0"
    using assms
    by (simp add: proxyAndCache_def Let_def nd_def s4_def s5_def s6_def s0_def)
  have w6: "body (w s6) = body (w s)" "status (w s6) = status (w s)"
    by (simp_all add: s6_def s5_def s4_def u copyHeaders_def delHeader_def)
  have f0: "fs s0 = (fs s)(tempName e localPath \<mapsto> File [])"
    by (simp add: s0_def s6_def s5_def s4_def u)
  have o0: "ops s0 = ops s1 @ [Load localPath, Fetch url, MkdirAll (filepath_Dir e localPath),
                                CreateTemp (filepath_Dir e localPath)]"
    by (simp add: s0_def s6_def s5_def s4_def)
  have w0: "body (w s0) = body (w s)" "status (w s) = 0 \<longrightarrow> status (w s0) = 200"
    using w6 by (simp_all add: s0_def WriteHeader_def)
  show thesis
    by (rule that [of s0]) (fact eq [unfolded nd_def] f0 o0 w0)+
qed

lemma reachesSharedPass_caching:
  assumes "reachesSharedPass e r url localPath s resp"
  obtains s0 where
    "proxyAndCache e r url localPath s
       = teeAndCommit e localPath
           (HasSuffix url ''.br''
              \<and> \<not> Contains (ToLower e (Get (reqHeader r) ''Accept-Encoding'')) ''br'')
           (LimitReader (Body resp, brokenBody resp) maxProxySize) (tempName e localPath) s0"
    "fs s0 = (fs s)(tempName e localPath \<mapsto> File [])"
    "ops s0 = ops (snd (serveLocalFile e r localPath s))
                @ [Load localPath, Fetch url, MkdirAll (filepath_Dir e localPath),
                   CreateTemp (filepath_Dir e localPath)]"
    "body (w s0) = body (w s)"
    "status (w s) = 0 \<longrightarrow> status (w s0) = 200"
proof -
  obtain s1 where s1: "serveLocalFile e r localPath s = (False, s1)"
    using assms by (cases "serveLocalFile e r localPath s") (auto simp: reachesSharedPass_def)
  have a: "localPath \<notin> activeDownloads s1"
    using assms serveLocalFile_unhandled [OF s1] by (simp add: reachesSharedPass_def)
  have b: "\<not> newRequestFails e (Method r) url"
      "httpDo e (Method r) url (forwardedHeaders e (reqHeader r)) = Some resp"
      "\<not> ContentLength resp > int maxProxySize" "StatusCode resp = 200"
      "\<not> mkdirFails e (filepath_Dir e localPath)" "\<not> createFails e (tempName e localPath)"
    using assms by (simp_all add: reachesSharedPass_def)
  have s1': "snd (serveLocalFile e r localPath s) = s1" using s1 by simp
  show thesis
    by (rule proxyAndCache_caching [OF s1 b(1,2,3,4) a b(5,6)]) (rule that; simp only: s1')
qed

lemma proxyAndCache_fs_cases:
  "fs (proxyAndCache e r url localPath s) = fs s
   \<or> (\<exists>resp. reachesSharedPass e r url localPath s resp)"
proof (cases "\<exists>resp. reachesSharedPass e r url localPath s resp")
  case True
  then show ?thesis by simp
next
  case False
  obtain b s1 where s1: "serveLocalFile e r localPath s = (b, s1)"
    by (cases "serveLocalFile e r localPath s")
  have k: "fs s1 = fs s" "activeDownloads s1 = activeDownloads s"
    using serveLocalFile_keeps [of e r localPath s] s1 by simp_all
  have "fs (proxyAndCache e r url localPath s) = fs s"
    using False s1 k
    by (cases b) (auto simp add: proxyAndCache_def Let_def reachesSharedPass_def split: option.splits)
  then show ?thesis by simp
qed

lemma LimitReader_within: "length (fst r) \<le> n \<Longrightarrow> fst (LimitReader r n) = fst r"
  by (simp add: LimitReader_def)

lemma LimitReader_length: "length (fst (LimitReader r n)) \<le> n"
  by (simp add: LimitReader_def)

text \<open>The worked example: a five-byte asset that is not in the cache.\<close>

lemma example_miss:
  "serveLocalFile (origin resp) (plainRequest q) p emptyState = (False, emit (Stat p) emptyState)"
  by (simp add: serveLocalFile_def origin_def exampleEnv_def plainRequest_def emptyState_def
        Get_def lowerASCII_def os_Stat_def stat_of_def)

lemma example_reaches_any:
  "reachesSharedPass (origin (okResponse bs)) (plainRequest q) url p emptyState (okResponse bs)"
  by (simp add: reachesSharedPass_def example_miss)
     (simp add: origin_def exampleEnv_def okResponse_def emptyState_def)

lemma example_serveLocalFile_miss:
  "serveLocalFile (origin resp) (plainRequest p) ''/cache/a.bin'' emptyState
     = (False, emit (Stat ''/cache/a.bin'') emptyState)"
  "serveLocalFile (fullDisk resp) (plainRequest p) ''/cache/a.bin'' emptyState
     = (False, emit (Stat ''/cache/a.bin'') emptyState)"
  "serveLocalFile (noRename resp) (plainRequest p) ''/cache/a.bin'' emptyState
     = (False, emit (Stat ''/cache/a.bin'') emptyState)"
  by (simp_all add: serveLocalFile_def origin_def fullDisk_def noRename_def exampleEnv_def
        plainRequest_def emptyState_def Get_def lowerASCII_def TrimSuffix_def HasSuffix_def
        os_Stat_def stat_of_def)

lemma example_reaches:
  "reachesSharedPass (origin (okResponse ''hello'')) (plainRequest ''/vcsky/a.bin'')
     ''https://cdn.dos.zone/vcsky/a.bin'' ''/cache/a.bin'' emptyState (okResponse ''hello'')"
  "reachesSharedPass (fullDisk (okResponse ''hello'')) (plainRequest ''/vcsky/a.bin'')
     ''https://cdn.dos.zone/vcsky/a.bin'' ''/cache/a.bin'' emptyState (okResponse ''hello'')"
  "reachesSharedPass (noRename (okResponse ''hello'')) (plainRequest ''/vcsky/a.bin'')
     ''https://cdn.dos.zone/vcsky/a.bin'' ''/cache/a.bin'' emptyState (okResponse ''hello'')"
  by (simp_all add: reachesSharedPass_def example_serveLocalFile_miss)
     (simp_all add: origin_def fullDisk_def noRename_def exampleEnv_def okResponse_def
        emptyState_def)

lemma example_pass:
  "LimitReader (Body (okResponse ''hello''), brokenBody (okResponse ''hello'')) maxProxySize
     = (''hello'', False)"
  "tempName (origin resp) ''/cache/a.bin'' = ''/cache/.tmp-1''"
  "tempName (fullDisk resp) ''/cache/a.bin'' = ''/cache/.tmp-1''"
  "tempName (noRename resp) ''/cache/a.bin'' = ''/cache/.tmp-1''"
  "\<not> HasSuffix ''https://cdn.dos.zone/vcsky/a.bin'' ''.br''"
  "sharedPass (origin resp) False (''hello'', False) ''/cache/.tmp-1'' = (''hello'', 5, False)"
  "sharedPass (noRename resp) False (''hello'', False) ''/cache/.tmp-1'' = (''hello'', 5, False)"
  "diskLimit (fullDisk resp) ''/cache/.tmp-1'' = Some 2"
  "\<not> renameFails (origin resp) ''/cache/.tmp-1'' ''/cache/a.bin''"
  "renameFails (noRename resp) ''/cache/.tmp-1'' ''/cache/a.bin''"
  by (simp_all add: LimitReader_def okResponse_def maxProxySize_def origin_def fullDisk_def
        noRename_def exampleEnv_def HasSuffix_def sharedPass_def TeeReader_def io_Copy_def)

text \<open>
  C4. On the path of \<open>proxyAndCache\<close> that reaches the shared pass: an upstream read
  error, a failed write to the temp file, a failed write to the client or a decoding
  error makes \<open>copyErr\<close> non-nil; with \<open>copyErr\<close> the temp file is removed and no rename
  is attempted; without it the temp file holds the whole limited body and is renamed to
  \<open>localPath\<close>; when the rename fails the temp file is removed and the client has still
  received the full body with status 200. And whatever the inputs, \<open>proxyAndCache\<close>
  changes what is at \<open>localPath\<close> only by that rename of a completely written temp
  file (the temp name being another name than \<open>localPath\<close>).
\<close>

theorem proxyAndCache_commit_discipline:
  fixes e r url localPath s resp
  defines "lb \<equiv> LimitReader (Body resp, brokenBody resp) maxProxySize"
      and "tmp \<equiv> tempName e localPath"
      and "nd \<equiv> (HasSuffix url ''.br''
                  \<and> \<not> Contains (ToLower e (Get (reqHeader r) ''Accept-Encoding'')) ''br'')"
      and "s' \<equiv> proxyAndCache e r url localPath s"
  defines "copyErr \<equiv> snd (snd (sharedPass e nd lb tmp))"
      and "sent \<equiv> (if nd then out (brotli_Reader e (fst lb)) else fst lb)"
      and "before \<equiv> ops (snd (serveLocalFile e r localPath s))
                      @ [Load localPath, Fetch url, MkdirAll (filepath_Dir e localPath),
                         CreateTemp (filepath_Dir e localPath)]"
  shows
    "(reachesSharedPass e r url localPath s resp \<longrightarrow>
        (snd lb \<or> (\<exists>k. diskLimit e tmp = Some k \<and> k < length (fst lb))
           \<or> (\<exists>k. clientLimit e = Some k \<and> k < length sent)
           \<or> (nd \<and> bad (brotli_Reader e (fst lb))) \<longrightarrow> copyErr)
      \<and> (copyErr \<longrightarrow>
            fs s' = (fs s)(tmp := None)
            \<and> (\<exists>n. ops s' = before @ [ReadBody n, Remove tmp]))
      \<and> (\<not> copyErr \<and> \<not> renameFails e tmp localPath \<longrightarrow>
            fs s' = ((fs s)(tmp := None))(localPath \<mapsto> File (fst lb))
            \<and> ops s' = before @ [ReadBody (length (fst lb)), Rename tmp localPath]
            \<and> body (w s') = body (w s) @ sent)
      \<and> (\<not> copyErr \<and> renameFails e tmp localPath \<longrightarrow>
            fs s' = (fs s)(tmp := None)
            \<and> ops s' = before @ [ReadBody (length (fst lb)), Rename tmp localPath, Remove tmp]
            \<and> body (w s') = body (w s) @ sent
            \<and> (status (w s) = 0 \<longrightarrow> status (w s') = 200)))
     \<and> (tmp \<noteq> localPath \<and> fs s' localPath \<noteq> fs s localPath \<longrightarrow>
          (\<exists>resp' lb'. reachesSharedPass e r url localPath s resp'
              \<and> lb' = LimitReader (Body resp', brokenBody resp') maxProxySize
              \<and> \<not> snd (snd (sharedPass e nd lb' tmp))
              \<and> fs s' localPath = Some (File (fst lb'))
              \<and> last (ops s') = Rename tmp localPath))"
proof -
  have main: "(snd lb \<or> (\<exists>k. diskLimit e tmp = Some k \<and> k < length (fst lb))
           \<or> (\<exists>k. clientLimit e = Some k \<and> k < length sent)
           \<or> (nd \<and> bad (brotli_Reader e (fst lb))) \<longrightarrow> copyErr)
      \<and> (copyErr \<longrightarrow>
            fs s' = (fs s)(tmp := None)
            \<and> (\<exists>n. ops s' = before @ [ReadBody n, Remove tmp]))
      \<and> (\<not> copyErr \<and> \<not> renameFails e tmp localPath \<longrightarrow>
            fs s' = ((fs s)(tmp := None))(localPath \<mapsto> File (fst lb))
            \<and> ops s' = before @ [ReadBody (length (fst lb)), Rename tmp localPath]
            \<and> body (w s') = body (w s) @ sent)
      \<and> (\<not> copyErr \<and> renameFails e tmp localPath \<longrightarrow>
            fs s' = (fs s)(tmp := None)
            \<and> ops s' = before @ [ReadBody (length (fst lb)), Rename tmp localPath, Remove tmp]
            \<and> body (w s') = body (w s) @ sent
            \<and> (status (w s) = 0 \<longrightarrow> status (w s') = 200))"
    if H: "reachesSharedPass e r url localPath s resp"
  proof -
    obtain s0 where s0: "s' = teeAndCommit e localPath nd lb tmp s0"
        "fs s0 = (fs s)(tmp \<mapsto> File [])" "ops s0 = before"
        "body (w s0) = body (w s)" "status (w s) = 0 \<longrightarrow> status (w s0) = 200"
      using reachesSharedPass_caching [OF H]
      unfolding s'_def nd_def lb_def tmp_def before_def by metis
    have errs: "snd lb \<or> (\<exists>k. diskLimit e tmp = Some k \<and> k < length (fst lb))
           \<or> (\<exists>k. clientLimit e = Some k \<and> k < length sent)
           \<or> (nd \<and> bad (brotli_Reader e (fst lb))) \<longrightarrow> copyErr"
      unfolding copyErr_def sent_def
      using sharedPass_read_error [of lb e nd tmp] sharedPass_disk_error [of e tmp _ lb nd]
        sharedPass_client_error [of e _ lb tmp] sharedPass_client_error_decompress [of e _ lb tmp]
        sharedPass_decode_error [of e lb tmp]
      by (cases nd) auto
    have a: "copyErr \<longrightarrow> fs s' = (fs s)(tmp := None)
            \<and> (\<exists>n. ops s' = before @ [ReadBody n, Remove tmp])"
      unfolding copyErr_def s0(1)
      using teeAndCommit_error [of e nd lb tmp localPath s0] s0(2,3) by auto
    have b: "\<not> copyErr \<and> \<not> renameFails e tmp localPath \<longrightarrow>
            fs s' = ((fs s)(tmp := None))(localPath \<mapsto> File (fst lb))
            \<and> ops s' = before @ [ReadBody (length (fst lb)), Rename tmp localPath]
            \<and> body (w s') = body (w s) @ sent"
      unfolding copyErr_def s0(1) sent_def
      using teeAndCommit_commit [of e nd lb tmp localPath s0] s0(2,3,4) by auto
    have c: "\<not> copyErr \<and> renameFails e tmp localPath \<longrightarrow>
            fs s' = (fs s)(tmp := None)
            \<and> ops s' = before @ [ReadBody (length (fst lb)), Rename tmp localPath, Remove tmp]
            \<and> body (w s') = body (w s) @ sent
            \<and> (status (w s) = 0 \<longrightarrow> status (w s') = 200)"
      unfolding copyErr_def s0(1) sent_def
      using teeAndCommit_rename_fails [of e nd lb tmp localPath s0] s0(2,3,4,5)
        teeAndCommit_status [of s0 e localPath nd lb tmp]
      by auto
    show ?thesis using errs a b c by blast
  qed
  have only: "\<exists>resp' lb'. reachesSharedPass e r url localPath s resp'
              \<and> lb' = LimitReader (Body resp', brokenBody resp') maxProxySize
              \<and> \<not> snd (snd (sharedPass e nd lb' tmp))
              \<and> fs s' localPath = Some (File (fst lb'))
              \<and> last (ops s') = Rename tmp localPath"
    if ne: "tmp \<noteq> localPath" and ch: "fs s' localPath \<noteq> fs s localPath"
  proof -
    obtain resp' where H: "reachesSharedPass e r url localPath s resp'"
      using proxyAndCache_fs_cases [of e r url localPath s] ch unfolding s'_def by auto
    define lb' where "lb' = LimitReader (Body resp', brokenBody resp') maxProxySize"
    obtain s0 where s0: "s' = teeAndCommit e localPath nd lb' tmp s0"
        "fs s0 = (fs s)(tmp \<mapsto> File [])"
      using reachesSharedPass_caching [OF H]
      unfolding s'_def nd_def lb'_def tmp_def by metis
    have ok: "\<not> snd (snd (sharedPass e nd lb' tmp))"
    proof
      assume "snd (snd (sharedPass e nd lb' tmp))"
      then have "fs s' = (fs s)(tmp := None)"
        unfolding s0(1) using teeAndCommit_error(1) [of e nd lb' tmp localPath s0] s0(2) by simp
      then show False using ne ch by simp
    qed
    have nf: "\<not> renameFails e tmp localPath"
    proof
      assume "renameFails e tmp localPath"
      then have "fs s' = (fs s)(tmp := None)"
        unfolding s0(1) using teeAndCommit_rename_fails(1) [OF ok, of localPath s0] s0(2) by simp
      then show False using ne ch by simp
    qed
    have "fs s' localPath = Some (File (fst lb'))" "last (ops s') = Rename tmp localPath"
      unfolding s0(1) using teeAndCommit_commit(1,2) [OF ok nf, of s0] by simp_all
    then show ?thesis using H ok lb'_def by blast
  qed
  show ?thesis using main only by blast
qed

theorem proxyAndCache_commit_discipline_witness:
  "reachesSharedPass (origin (okResponse ''hello'')) (plainRequest ''/vcsky/a.bin'')
     ''https://cdn.dos.zone/vcsky/a.bin'' ''/cache/a.bin'' emptyState (okResponse ''hello'')
   \<and> fs (proxyAndCache (origin (okResponse ''hello'')) (plainRequest ''/vcsky/a.bin'')
           ''https://cdn.dos.zone/vcsky/a.bin'' ''/cache/a.bin'' emptyState) ''/cache/a.bin''
       = Some (File ''hello'')
   \<and> fs (proxyAndCache (origin (okResponse ''hello'')) (plainRequest ''/vcsky/a.bin'')
           ''https://cdn.dos.zone/vcsky/a.bin'' ''/cache/a.bin'' emptyState) ''/cache/.tmp-1''
       = None
   \<and> last (ops (proxyAndCache (origin (okResponse ''hello'')) (plainRequest ''/vcsky/a.bin'')
           ''https://cdn.dos.zone/vcsky/a.bin'' ''/cache/a.bin'' emptyState))
       = Rename ''/cache/.tmp-1'' ''/cache/a.bin''
   \<and> reachesSharedPass (fullDisk (okResponse ''hello'')) (plainRequest ''/vcsky/a.bin'')
     ''https://cdn.dos.zone/vcsky/a.bin'' ''/cache/a.bin'' emptyState (okResponse ''hello'')
   \<and> diskLimit (fullDisk (okResponse ''hello'')) ''/cache/.tmp-1'' = Some 2
   \<and> fs (proxyAndCache (fullDisk (okResponse ''hello'')) (plainRequest ''/vcsky/a.bin'')
           ''https://cdn.dos.zone/vcsky/a.bin'' ''/cache/a.bin'' emptyState) = (\<lambda>_. None)
   \<and> reachesSharedPass (noRename (okResponse ''hello'')) (plainRequest ''/vcsky/a.bin'')
     ''https://cdn.dos.zone/vcsky/a.bin'' ''/cache/a.bin'' emptyState (okResponse ''hello'')
   \<and> renameFails (noRename (okResponse ''hello'')) ''/cache/.tmp-1'' ''/cache/a.bin''
   \<and> fs (proxyAndCache (noRename (okResponse ''hello'')) (plainRequest ''/vcsky/a.bin'')
           ''https://cdn.dos.zone/vcsky/a.bin'' ''/cache/a.bin'' emptyState) = (\<lambda>_. None)
   \<and> status (w (proxyAndCache (noRename (okResponse ''hello'')) (plainRequest ''/vcsky/a.bin'')
           ''https://cdn.dos.zone/vcsky/a.bin'' ''/cache/a.bin'' emptyState)) = 200
   \<and> body (w (proxyAndCache (noRename (okResponse ''hello'')) (plainRequest ''/vcsky/a.bin'')
           ''https://cdn.dos.zone/vcsky/a.bin'' ''/cache/a.bin'' emptyState)) = ''hello''"
proof -
  have s0: "fs emptyState = (\<lambda>_. None)" "status (w emptyState) = 0" "body (w emptyState) = []"
    by (simp_all add: emptyState_def emptyResponse_def)
  note ok = proxyAndCache_commit_discipline [where e = "origin (okResponse ''hello'')"
      and r = "plainRequest ''/vcsky/a.bin''" and url = "''https://cdn.dos.zone/vcsky/a.bin''"
      and localPath = "''/cache/a.bin''" and s = emptyState and resp = "okResponse ''hello''"]
  note full = proxyAndCache_commit_discipline [where e = "fullDisk (okResponse ''hello'')"
      and r = "plainRequest ''/vcsky/a.bin''" and url = "''https://cdn.dos.zone/vcsky/a.bin''"
      and localPath = "''/cache/a.bin''" and s = emptyState and resp = "okResponse ''hello''"]
  note nore = proxyAndCache_commit_discipline [where e = "noRename (okResponse ''hello'')"
      and r = "plainRequest ''/vcsky/a.bin''" and url = "''https://cdn.dos.zone/vcsky/a.bin''"
      and localPath = "''/cache/a.bin''" and s = emptyState and resp = "okResponse ''hello''"]
  have a: "fs (proxyAndCache (origin (okResponse ''hello'')) (plainRequest ''/vcsky/a.bin'')
           ''https://cdn.dos.zone/vcsky/a.bin'' ''/cache/a.bin'' emptyState)
        = [''/cache/a.bin'' \<mapsto> File ''hello'']"
     "last (ops (proxyAndCache (origin (okResponse ''hello'')) (plainRequest ''/vcsky/a.bin'')
           ''https://cdn.dos.zone/vcsky/a.bin'' ''/cache/a.bin'' emptyState))
       = Rename ''/cache/.tmp-1'' ''/cache/a.bin''"
    using ok example_reaches(1) by (simp_all add: example_pass s0)
  have b: "fs (proxyAndCache (fullDisk (okResponse ''hello'')) (plainRequest ''/vcsky/a.bin'')
           ''https://cdn.dos.zone/vcsky/a.bin'' ''/cache/a.bin'' emptyState) = (\<lambda>_. None)"
    using full example_reaches(2) by (simp add: example_pass s0)
  have c: "fs (proxyAndCache (noRename (okResponse ''hello'')) (plainRequest ''/vcsky/a.bin'')
           ''https://cdn.dos.zone/vcsky/a.bin'' ''/cache/a.bin'' emptyState) = (\<lambda>_. None)"
    "status (w (proxyAndCache (noRename (okResponse ''hello'')) (plainRequest ''/vcsky/a.bin'')
           ''https://cdn.dos.zone/vcsky/a.bin'' ''/cache/a.bin'' emptyState)) = 200"
    "body (w (proxyAndCache (noRename (okResponse ''hello'')) (plainRequest ''/vcsky/a.bin'')
           ''https://cdn.dos.zone/vcsky/a.bin'' ''/cache/a.bin'' emptyState)) = ''hello''"
    using nore example_reaches(3) by (simp_all add: example_pass s0)
  show ?thesis
    using a b c example_reaches by (simp add: example_pass)
qed

section \<open>The size cap\<close>

text \<open>
  A response whose declared length is over the cap is answered 502 after the fetch and
  before any read of its body.
\<close>

lemma proxyAndCache_declared_length_rejected:
  assumes "serveLocalFile e r localPath s = (False, s1)"
      and "\<not> newRequestFails e (Method r) url"
      and "httpDo e (Method r) url (forwardedHeaders e (reqHeader r)) = Some resp"
      and "ContentLength resp > int maxProxySize"
  shows "proxyAndCache e r url localPath s
         = http_Error ''Response too large'' 502 (emit (Fetch url) (emit (Load localPath) s1))"
    and "ops (proxyAndCache e r url localPath s) = ops s1 @ [Load localPath, Fetch url]"
    and "fs (proxyAndCache e r url localPath s) = fs s"
    and "status (w s) = 0 \<Longrightarrow> status (w (proxyAndCache e r url localPath s)) = 502"
proof -
  show eq: "proxyAndCache e r url localPath s
         = http_Error ''Response too large'' 502 (emit (Fetch url) (emit (Load localPath) s1))"
    using assms by (simp add: proxyAndCache_def Let_def)
  show "ops (proxyAndCache e r url localPath s) = ops s1 @ [Load localPath, Fetch url]"
    unfolding eq by simp
  show "fs (proxyAndCache e r url localPath s) = fs s"
    unfolding eq using serveLocalFile_unhandled [OF assms(1)] by simp
  show "status (w (proxyAndCache e r url localPath s)) = 502" if "status (w s) = 0"
    unfolding eq using that serveLocalFile_unhandled [OF assms(1)]
    by (simp add: http_Error_def Write_def WriteHeader_def setHeader_def delHeader_def Let_def)
qed

lemma LimitReader_cut:
  "n \<le> length bs \<Longrightarrow> LimitReader (bs, b) n = (take n bs, False)"
  by (simp add: LimitReader_def)

text \<open>
  C1, at an input where the code does not do what is claimed. The origin declares no
  length and sends one byte more than the cap. The limited reader ends the stream at
  the cap with a plain end-of-file, so \<open>copyErr\<close> is nil: the client gets status 200 and
  the first \<open>maxProxySize\<close> bytes, and the truncated body is renamed into the cache.
\<close>

theorem proxyAndCache_commits_truncated_body:
  "maxProxySize < length (Body (okResponse oversized))
   \<and> ContentLength (okResponse oversized) = - 1
   \<and> status (w (proxyAndCache (origin (okResponse oversized)) (plainRequest ''/vcsky/a.bin'')
         ''https://cdn.dos.zone/vcsky/a.bin'' ''/cache/a.bin'' emptyState)) = 200
   \<and> body (w (proxyAndCache (origin (okResponse oversized)) (plainRequest ''/vcsky/a.bin'')
         ''https://cdn.dos.zone/vcsky/a.bin'' ''/cache/a.bin'' emptyState))
       = replicate maxProxySize CHR ''x''
   \<and> fs (proxyAndCache (origin (okResponse oversized)) (plainRequest ''/vcsky/a.bin'')
         ''https://cdn.dos.zone/vcsky/a.bin'' ''/cache/a.bin'' emptyState) ''/cache/a.bin''
       = Some (File (replicate maxProxySize CHR ''x''))
   \<and> ops (proxyAndCache (origin (okResponse oversized)) (plainRequest ''/vcsky/a.bin'')
         ''https://cdn.dos.zone/vcsky/a.bin'' ''/cache/a.bin'' emptyState)
       = [Stat ''/cache/a.bin'', Load ''/cache/a.bin'', Fetch ''https://cdn.dos.zone/vcsky/a.bin'',
          MkdirAll ''/cache'', CreateTemp ''/cache'', ReadBody maxProxySize,
          Rename ''/cache/.tmp-1'' ''/cache/a.bin'']"
proof -
  define e where "e = origin (okResponse oversized)"
  define lb where "lb = (replicate maxProxySize CHR ''x'', False)"
  have big: "maxProxySize < length (Body (okResponse oversized))"
      "ContentLength (okResponse oversized) = - 1"
    by (simp_all add: okResponse_def oversized_def)
  have cut: "take maxProxySize oversized = replicate maxProxySize CHR ''x''"
    unfolding oversized_def take_replicate by simp
  have "maxProxySize \<le> length oversized"
    by (simp add: oversized_def)
  then have lim: "LimitReader (Body (okResponse oversized), brokenBody (okResponse oversized)) maxProxySize
             = lb"
    by (simp add: okResponse_def LimitReader_cut lb_def cut)
  have env: "tempName e ''/cache/a.bin'' = ''/cache/.tmp-1''"
      "filepath_Dir e ''/cache/a.bin'' = ''/cache''"
      "diskLimit e ''/cache/.tmp-1'' = None" "clientLimit e = None"
      "\<not> renameFails e ''/cache/.tmp-1'' ''/cache/a.bin''"
    by (simp_all add: e_def origin_def exampleEnv_def)
  have nd: "(HasSuffix ''https://cdn.dos.zone/vcsky/a.bin'' ''.br''
              \<and> \<not> Contains (ToLower e (Get (reqHeader (plainRequest ''/vcsky/a.bin''))
                     ''Accept-Encoding'')) ''br'') = False"
    by (simp add: HasSuffix_def)
  have st: "status (w emptyState) = 0" "body (w emptyState) = []" "ops emptyState = []"
      "fs emptyState = (\<lambda>_. None)"
    by (simp_all add: emptyState_def emptyResponse_def)
  have reach: "reachesSharedPass e (plainRequest ''/vcsky/a.bin'')
      ''https://cdn.dos.zone/vcsky/a.bin'' ''/cache/a.bin'' emptyState (okResponse oversized)"
    unfolding e_def by (rule example_reaches_any)
  obtain s0 where s0:
      "proxyAndCache e (plainRequest ''/vcsky/a.bin'') ''https://cdn.dos.zone/vcsky/a.bin''
         ''/cache/a.bin'' emptyState
       = teeAndCommit e ''/cache/a.bin'' False lb ''/cache/.tmp-1'' s0"
      "fs s0 = (fs emptyState)(''/cache/.tmp-1'' \<mapsto> File [])"
      "ops s0 = ops (snd (serveLocalFile e (plainRequest ''/vcsky/a.bin'') ''/cache/a.bin'' emptyState))
                @ [Load ''/cache/a.bin'', Fetch ''https://cdn.dos.zone/vcsky/a.bin'',
                   MkdirAll ''/cache'', CreateTemp ''/cache'']"
      "body (w s0) = body (w emptyState)"
      "status (w emptyState) = 0 \<longrightarrow> status (w s0) = 200"
    by (rule reachesSharedPass_caching [OF reach, unfolded nd lim env])
  have ok: "\<not> snd (snd (sharedPass e False lb ''/cache/.tmp-1''))"
    by (rule sharedPass_no_error) (simp_all add: env lb_def)
  note c = teeAndCommit_commit [OF ok env(5), of s0]
  have "status (w s0) = 200" using s0(5) st by simp
  then have stat: "status (w (teeAndCommit e ''/cache/a.bin'' False lb ''/cache/.tmp-1'' s0)) = 200"
    using teeAndCommit_status [of s0 e "''/cache/a.bin''" False lb "''/cache/.tmp-1''"] by simp
  have miss: "ops (snd (serveLocalFile e (plainRequest ''/vcsky/a.bin'') ''/cache/a.bin'' emptyState))
              = [Stat ''/cache/a.bin'']"
    unfolding e_def by (simp add: example_miss st)
  show ?thesis
    unfolding e_def [symmetric] s0(1)
    using big stat c s0(2,3,4) miss st
    by (simp add: lb_def)
qed

section \<open>The single-item fetcher\<close>

lemma os_Remove_simps [simp]:
  "fs (os_Remove p s) = (fs s)(p := None)" "ops (os_Remove p s) = ops s @ [Remove p]"
  "activeDownloads (os_Remove p s) = activeDownloads s" "w (os_Remove p s) = w s"
  by (simp_all add: os_Remove_def)

lemma os_Rename_simps [simp]:
  "ops (snd (os_Rename e a b s)) = ops s @ [Rename a b]"
  "activeDownloads (snd (os_Rename e a b s)) = activeDownloads s"
  "w (snd (os_Rename e a b s)) = w s"
  by (simp_all add: os_Rename_def)

lemma case_bool_pair:
  "(case p of (True, s') \<Rightarrow> f s' | (False, s') \<Rightarrow> g s')
   = (if fst p then f (snd p) else g (snd p))"
  by (cases p) (auto split: bool.splits)

lemma fs_os_Rename:
  "fs (snd (os_Rename e a b s))
   = (if renameFails e a b \<or> fs s a = None then fs s else ((fs s)(a := None))(b := fs s a))"
  by (simp add: os_Rename_def)

lemma downloadClaimed_active [simp]:
  "activeDownloads (snd (downloadClaimed e url d s)) = activeDownloads s"
  by (auto simp add: downloadClaimed_def Let_def os_Stat_def case_bool_pair
        split: option.splits if_splits)

lemma downloadClaimed_exists:
  "stat_of e (fs s) d = IsFile \<or> stat_of e (fs s) d = IsDir
   \<Longrightarrow> downloadClaimed e url d s = (None, emit (Stat d) s)"
  by (auto simp add: downloadClaimed_def os_Stat_def)

lemma take_Suc_decomp:
  assumes "take (Suc (length p)) xs = p @ [x]"
  shows "xs = p @ x # drop (Suc (length p)) xs"
proof -
  have "xs = take (Suc (length p)) xs @ drop (Suc (length p)) xs" by simp
  then show ?thesis unfolding assms by simp
qed

lemma downloadClaimed_ops_raw:
  "take (Suc (length (ops s))) (ops (snd (downloadClaimed e url d s))) = ops s @ [Stat d]"
  "Fetch u \<in> set (drop (length (ops s)) (ops (snd (downloadClaimed e url d s))))
   \<Longrightarrow> u = url \<and> stat_of e (fs s) d \<noteq> IsFile \<and> stat_of e (fs s) d \<noteq> IsDir"
  by (auto simp add: downloadClaimed_def Let_def os_Stat_def case_bool_pair
        split: option.splits if_splits)

lemma downloadClaimed_ops:
  obtains rest where "ops (snd (downloadClaimed e url d s)) = ops s @ Stat d # rest"
    "\<forall>u. Fetch u \<in> set rest
      \<longrightarrow> u = url \<and> stat_of e (fs s) d \<noteq> IsFile \<and> stat_of e (fs s) d \<noteq> IsDir"
proof -
  define rest where "rest = drop (Suc (length (ops s))) (ops (snd (downloadClaimed e url d s)))"
  have a: "ops (snd (downloadClaimed e url d s)) = ops s @ Stat d # rest"
    unfolding rest_def by (rule take_Suc_decomp) (rule downloadClaimed_ops_raw(1))
  have b: "u = url \<and> stat_of e (fs s) d \<noteq> IsFile \<and> stat_of e (fs s) d \<noteq> IsDir"
    if "Fetch u \<in> set rest" for u
  proof -
    have "drop (length (ops s)) (ops (snd (downloadClaimed e url d s))) = Stat d # rest"
      by (subst a) simp
    then have "Fetch u \<in> set (drop (length (ops s)) (ops (snd (downloadClaimed e url d s))))"
      using that by simp
    then show ?thesis by (rule downloadClaimed_ops_raw(2))
  qed
  show thesis by (rule that [OF a]) (simp add: b)
qed

lemma sync_LoadOrStore_simps [simp]:
  "fst (sync_LoadOrStore k m) = (k \<in> m)" "snd (sync_LoadOrStore k m) = insert k m"
  by (simp_all add: sync_LoadOrStore_def)

lemma sync_Delete_simp [simp]: "sync_Delete k m = m - {k}"
  by (simp add: sync_Delete_def)

text \<open>\<open>downloadFile\<close> along its three ways out.\<close>

lemma downloadFile_exists:
  assumes "stat_of e (fs s) d = IsFile \<or> stat_of e (fs s) d = IsDir"
  shows "downloadFile e url d s = (None, emit (Stat d) s)"
  using assms by (auto simp add: downloadFile_def os_Stat_def)

lemma downloadFile_deferred:
  assumes "stat_of e (fs s) d \<noteq> IsFile" "stat_of e (fs s) d \<noteq> IsDir" "d \<in> activeDownloads s"
  shows "downloadFile e url d s
         = (None, (emit (LoadOrStore d) (emit (Stat d) s))\<lparr>activeDownloads := activeDownloads s\<rparr>)"
  using assms
  by (simp add: downloadFile_def os_Stat_def case_bool_pair insert_absorb)

lemma downloadFile_claimed:
  assumes "stat_of e (fs s) d \<noteq> IsFile" "stat_of e (fs s) d \<noteq> IsDir" "d \<notin> activeDownloads s"
  shows "downloadFile e url d s
         = (let s3 = (emit (LoadOrStore d) (emit (Stat d) s))
                       \<lparr>activeDownloads := insert d (activeDownloads s), fs := others e (fs s)\<rparr>;
                rs = downloadClaimed e url d s3
            in (fst rs, (emit (Delete d) (snd rs))\<lparr>activeDownloads := activeDownloads s\<rparr>))"
  using assms
  by (simp add: downloadFile_def os_Stat_def case_bool_pair Let_def case_prod_beta)

text \<open>
  C6. \<open>downloadFile\<close> returns nil after the one \<open>Stat\<close> when \<open>destPath\<close> exists, and
  after the \<open>Stat\<close> and the \<open>LoadOrStore\<close> when the claim is held by another fetch; in
  both cases nothing is fetched and nothing changes. Having claimed, it looks again: if
  the file is there by then it returns nil without fetching (and releases the claim).
  Whenever it does fetch, the fetch is of \<open>url\<close> and comes after the check, the claim
  and the re-check, both checks having found nothing.
\<close>

theorem downloadFile_idempotent:
  fixes e url d s
  defines "s' \<equiv> snd (downloadFile e url d s)"
      and "exists0 \<equiv> (stat_of e (fs s) d = IsFile \<or> stat_of e (fs s) d = IsDir)"
      and "exists1 \<equiv> (stat_of e (others e (fs s)) d = IsFile \<or> stat_of e (others e (fs s)) d = IsDir)"
  shows
    "(exists0 \<longrightarrow> fst (downloadFile e url d s) = None \<and> ops s' = ops s @ [Stat d]
                  \<and> fs s' = fs s \<and> activeDownloads s' = activeDownloads s)
   \<and> (\<not> exists0 \<and> d \<in> activeDownloads s \<longrightarrow>
         fst (downloadFile e url d s) = None \<and> ops s' = ops s @ [Stat d, LoadOrStore d]
         \<and> fs s' = fs s \<and> activeDownloads s' = activeDownloads s)
   \<and> (\<not> exists0 \<and> d \<notin> activeDownloads s \<and> exists1 \<longrightarrow>
         fst (downloadFile e url d s) = None
         \<and> ops s' = ops s @ [Stat d, LoadOrStore d, Stat d, Delete d]
         \<and> fs s' = others e (fs s) \<and> activeDownloads s' = activeDownloads s)
   \<and> (\<forall>u. Fetch u \<in> set (drop (length (ops s)) (ops s')) \<longrightarrow>
         u = url \<and> \<not> exists0 \<and> d \<notin> activeDownloads s \<and> \<not> exists1
         \<and> take 3 (drop (length (ops s)) (ops s')) = [Stat d, LoadOrStore d, Stat d])"
proof -
  have A: "exists0 \<longrightarrow> fst (downloadFile e url d s) = None \<and> ops s' = ops s @ [Stat d]
                  \<and> fs s' = fs s \<and> activeDownloads s' = activeDownloads s"
    unfolding s'_def exists0_def using downloadFile_exists [of e s d url] by auto
  have B: "\<not> exists0 \<and> d \<in> activeDownloads s \<longrightarrow>
         fst (downloadFile e url d s) = None \<and> ops s' = ops s @ [Stat d, LoadOrStore d]
         \<and> fs s' = fs s \<and> activeDownloads s' = activeDownloads s"
    unfolding s'_def exists0_def using downloadFile_deferred [of e s d url] by auto
  have C: "\<not> exists0 \<and> d \<notin> activeDownloads s \<and> exists1 \<longrightarrow>
         fst (downloadFile e url d s) = None
         \<and> ops s' = ops s @ [Stat d, LoadOrStore d, Stat d, Delete d]
         \<and> fs s' = others e (fs s) \<and> activeDownloads s' = activeDownloads s"
  proof (intro impI, elim conjE)
    assume h: "\<not> exists0" "d \<notin> activeDownloads s" "exists1"
    define s3 where "s3 = (emit (LoadOrStore d) (emit (Stat d) s))
                       \<lparr>activeDownloads := insert d (activeDownloads s), fs := others e (fs s)\<rparr>"
    have "stat_of e (fs s3) d = IsFile \<or> stat_of e (fs s3) d = IsDir"
      using h(3) by (simp add: s3_def exists1_def)
    then have c: "downloadClaimed e url d s3 = (None, emit (Stat d) s3)"
      by (rule downloadClaimed_exists)
    show "fst (downloadFile e url d s) = None
         \<and> ops s' = ops s @ [Stat d, LoadOrStore d, Stat d, Delete d]
         \<and> fs s' = others e (fs s) \<and> activeDownloads s' = activeDownloads s"
      unfolding s'_def using h(1,2) downloadFile_claimed [of e s d url] c
      by (simp add: exists0_def s3_def Let_def)
  qed
  have D: "u = url \<and> \<not> exists0 \<and> d \<notin> activeDownloads s \<and> \<not> exists1
         \<and> take 3 (drop (length (ops s)) (ops s')) = [Stat d, LoadOrStore d, Stat d]"
    if f: "Fetch u \<in> set (drop (length (ops s)) (ops s'))" for u
  proof -
    have n0: "\<not> exists0" using f A by auto
    have n1: "d \<notin> activeDownloads s" using f B n0 by auto
    define s3 where "s3 = (emit (LoadOrStore d) (emit (Stat d) s))
                       \<lparr>activeDownloads := insert d (activeDownloads s), fs := others e (fs s)\<rparr>"
    define s4 where "s4 = snd (downloadClaimed e url d s3)"
    have eq: "ops s' = ops s4 @ [Delete d]"
      unfolding s'_def s4_def s3_def using n0 n1 downloadFile_claimed [of e s d url]
      by (simp add: exists0_def Let_def)
    have l3: "ops s3 = ops s @ [Stat d, LoadOrStore d]"
      by (simp add: s3_def)
    obtain rest where rest: "ops s4 = ops s3 @ Stat d # rest"
        "\<forall>u. Fetch u \<in> set rest
          \<longrightarrow> u = url \<and> stat_of e (fs s3) d \<noteq> IsFile \<and> stat_of e (fs s3) d \<noteq> IsDir"
      unfolding s4_def by (rule downloadClaimed_ops [of e url d s3])
    have new: "drop (length (ops s)) (ops s') = [Stat d, LoadOrStore d, Stat d] @ rest @ [Delete d]"
      unfolding eq rest(1) l3 by simp
    have t3: "take 3 (drop (length (ops s)) (ops s')) = [Stat d, LoadOrStore d, Stat d]"
      unfolding new by simp
    have "Fetch u \<in> set rest" using f unfolding new by simp
    then have "u = url \<and> stat_of e (fs s3) d \<noteq> IsFile \<and> stat_of e (fs s3) d \<noteq> IsDir"
      using rest(2) by simp
    then have "u = url" "\<not> exists1" by (simp_all add: s3_def exists1_def)
    then show ?thesis using n0 n1 t3 by simp
  qed
  show ?thesis using A B C D by blast
qed

lemma example_download:
  "fst (downloadFile (origin (okResponse ''hello'')) ''https://cdn.dos.zone/vcsky/a.bin''
         ''/cache/a.bin'' emptyState) = None"
  "ops (snd (downloadFile (origin (okResponse ''hello'')) ''https://cdn.dos.zone/vcsky/a.bin''
         ''/cache/a.bin'' emptyState))
   = [Stat ''/cache/a.bin'', LoadOrStore ''/cache/a.bin'', Stat ''/cache/a.bin'',
      MkdirAll ''/cache'', Fetch ''https://cdn.dos.zone/vcsky/a.bin'',
      Create ''/cache/a.bin.tmp'', ReadBody 5, Rename ''/cache/a.bin.tmp'' ''/cache/a.bin'',
      Delete ''/cache/a.bin'']"
  "fs (snd (downloadFile (origin (okResponse ''hello'')) ''https://cdn.dos.zone/vcsky/a.bin''
         ''/cache/a.bin'' emptyState)) ''/cache/a.bin'' = Some (File ''hello'')"
  by (simp_all add: downloadFile_def downloadClaimed_def bodyReader_def os_Stat_def stat_of_def
        os_Rename_def io_Copy_def Get_def origin_def okResponse_def exampleEnv_def emptyState_def
        Let_def emit_def sync_LoadOrStore_def)

theorem downloadFile_idempotent_witness:
  "stat_of (origin (okResponse ''hello'')) (fs cachedState) ''/cache/a.bin'' = IsFile
   \<and> downloadFile (origin (okResponse ''hello'')) ''https://cdn.dos.zone/vcsky/a.bin''
         ''/cache/a.bin'' cachedState = (None, emit (Stat ''/cache/a.bin'') cachedState)
   \<and> stat_of (origin (okResponse ''hello'')) (fs claimedState) ''/cache/a.bin'' = NotExist
   \<and> ''/cache/a.bin'' \<in> activeDownloads claimedState
   \<and> fst (downloadFile (origin (okResponse ''hello'')) ''https://cdn.dos.zone/vcsky/a.bin''
         ''/cache/a.bin'' claimedState) = None
   \<and> ops (snd (downloadFile (origin (okResponse ''hello'')) ''https://cdn.dos.zone/vcsky/a.bin''
         ''/cache/a.bin'' claimedState)) = [Stat ''/cache/a.bin'', LoadOrStore ''/cache/a.bin'']
   \<and> stat_of (finishedMeanwhile (okResponse ''hello'')) (fs emptyState) ''/cache/a.bin'' = NotExist
   \<and> stat_of (finishedMeanwhile (okResponse ''hello''))
         (others (finishedMeanwhile (okResponse ''hello'')) (fs emptyState)) ''/cache/a.bin'' = IsFile
   \<and> fst (downloadFile (finishedMeanwhile (okResponse ''hello'')) ''https://cdn.dos.zone/vcsky/a.bin''
         ''/cache/a.bin'' emptyState) = None
   \<and> ops (snd (downloadFile (finishedMeanwhile (okResponse ''hello''))
         ''https://cdn.dos.zone/vcsky/a.bin'' ''/cache/a.bin'' emptyState))
       = [Stat ''/cache/a.bin'', LoadOrStore ''/cache/a.bin'', Stat ''/cache/a.bin'',
          Delete ''/cache/a.bin'']
   \<and> Fetch ''https://cdn.dos.zone/vcsky/a.bin''
       \<in> set (drop (length (ops emptyState))
            (ops (snd (downloadFile (origin (okResponse ''hello''))
               ''https://cdn.dos.zone/vcsky/a.bin'' ''/cache/a.bin'' emptyState))))
   \<and> take 3 (drop (length (ops emptyState))
            (ops (snd (downloadFile (origin (okResponse ''hello''))
               ''https://cdn.dos.zone/vcsky/a.bin'' ''/cache/a.bin'' emptyState))))
       = [Stat ''/cache/a.bin'', LoadOrStore ''/cache/a.bin'', Stat ''/cache/a.bin'']"
proof -
  have st: "stat_of (origin (okResponse ''hello'')) (fs cachedState) ''/cache/a.bin'' = IsFile"
      "stat_of (origin (okResponse ''hello'')) (fs claimedState) ''/cache/a.bin'' = NotExist"
      "''/cache/a.bin'' \<in> activeDownloads claimedState"
      "''/cache/a.bin'' \<notin> activeDownloads emptyState"
      "stat_of (finishedMeanwhile (okResponse ''hello'')) (fs emptyState) ''/cache/a.bin'' = NotExist"
      "stat_of (finishedMeanwhile (okResponse ''hello''))
         (others (finishedMeanwhile (okResponse ''hello'')) (fs emptyState)) ''/cache/a.bin'' = IsFile"
      "ops cachedState = []" "ops claimedState = []" "ops emptyState = []"
    by (simp_all add: stat_of_def origin_def finishedMeanwhile_def exampleEnv_def cachedState_def
          claimedState_def emptyState_def)
  have f: "Fetch ''https://cdn.dos.zone/vcsky/a.bin''
       \<in> set (drop (length (ops emptyState))
            (ops (snd (downloadFile (origin (okResponse ''hello''))
               ''https://cdn.dos.zone/vcsky/a.bin'' ''/cache/a.bin'' emptyState))))"
    by (simp add: example_download st)
  note a = downloadFile_idempotent [where e = "origin (okResponse ''hello'')"
      and url = "''https://cdn.dos.zone/vcsky/a.bin''" and d = "''/cache/a.bin''" and s = cachedState]
  note b = downloadFile_idempotent [where e = "origin (okResponse ''hello'')"
      and url = "''https://cdn.dos.zone/vcsky/a.bin''" and d = "''/cache/a.bin''" and s = claimedState]
  note c = downloadFile_idempotent [where e = "finishedMeanwhile (okResponse ''hello'')"
      and url = "''https://cdn.dos.zone/vcsky/a.bin''" and d = "''/cache/a.bin''" and s = emptyState]
  note d = downloadFile_idempotent [where e = "origin (okResponse ''hello'')"
      and url = "''https://cdn.dos.zone/vcsky/a.bin''" and d = "''/cache/a.bin''" and s = emptyState]
  have A: "downloadFile (origin (okResponse ''hello'')) ''https://cdn.dos.zone/vcsky/a.bin''
         ''/cache/a.bin'' cachedState = (None, emit (Stat ''/cache/a.bin'') cachedState)"
    using st(1) by (simp add: downloadFile_exists)
  have B: "fst (downloadFile (origin (okResponse ''hello'')) ''https://cdn.dos.zone/vcsky/a.bin''
         ''/cache/a.bin'' claimedState) = None
     \<and> ops (snd (downloadFile (origin (okResponse ''hello'')) ''https://cdn.dos.zone/vcsky/a.bin''
         ''/cache/a.bin'' claimedState)) = [Stat ''/cache/a.bin'', LoadOrStore ''/cache/a.bin'']"
    using b st by simp
  have C: "fst (downloadFile (finishedMeanwhile (okResponse ''hello'')) ''https://cdn.dos.zone/vcsky/a.bin''
         ''/cache/a.bin'' emptyState) = None
     \<and> ops (snd (downloadFile (finishedMeanwhile (okResponse ''hello''))
         ''https://cdn.dos.zone/vcsky/a.bin'' ''/cache/a.bin'' emptyState))
       = [Stat ''/cache/a.bin'', LoadOrStore ''/cache/a.bin'', Stat ''/cache/a.bin'',
          Delete ''/cache/a.bin'']"
    using c st by simp
  have D: "take 3 (drop (length (ops emptyState))
            (ops (snd (downloadFile (origin (okResponse ''hello''))
               ''https://cdn.dos.zone/vcsky/a.bin'' ''/cache/a.bin'' emptyState))))
       = [Stat ''/cache/a.bin'', LoadOrStore ''/cache/a.bin'', Stat ''/cache/a.bin'']"
    using d f by blast
  show ?thesis using a A B C D f st by simp
qed

section \<open>The worker pool\<close>

lemma worker_one_counter:
  fixes e baseURL outputDir item cs
  defines "c \<equiv> fst cs" and "c' \<equiv> fst (worker e baseURL outputDir item cs)"
  shows "(downloaded c' = downloaded c + 1 \<and> skipped c' = skipped c \<and> failed c' = failed c)
       \<or> (downloaded c' = downloaded c \<and> skipped c' = skipped c + 1 \<and> failed c' = failed c)
       \<or> (downloaded c' = downloaded c \<and> skipped c' = skipped c \<and> failed c' = failed c + 1)"
  unfolding c_def c'_def
  by (auto simp add: worker_def Let_def split: prod.splits option.splits)

lemma drain_counts:
  fixes e baseURL outputDir files cs
  defines "c' \<equiv> fst (drain e baseURL outputDir files cs)"
  shows "downloaded c' + skipped c' + failed c'
         = downloaded (fst cs) + skipped (fst cs) + failed (fst cs) + int (length files)
       \<and> downloaded (fst cs) \<le> downloaded c' \<and> skipped (fst cs) \<le> skipped c'
       \<and> failed (fst cs) \<le> failed c'"
  unfolding c'_def
proof (induction files arbitrary: cs)
  case Nil
  then show ?case by simp
next
  case (Cons item items)
  have one: "(downloaded (fst (worker e baseURL outputDir item cs)) = downloaded (fst cs) + 1
        \<and> skipped (fst (worker e baseURL outputDir item cs)) = skipped (fst cs)
        \<and> failed (fst (worker e baseURL outputDir item cs)) = failed (fst cs))
       \<or> (downloaded (fst (worker e baseURL outputDir item cs)) = downloaded (fst cs)
        \<and> skipped (fst (worker e baseURL outputDir item cs)) = skipped (fst cs) + 1
        \<and> failed (fst (worker e baseURL outputDir item cs)) = failed (fst cs))
       \<or> (downloaded (fst (worker e baseURL outputDir item cs)) = downloaded (fst cs)
        \<and> skipped (fst (worker e baseURL outputDir item cs)) = skipped (fst cs)
        \<and> failed (fst (worker e baseURL outputDir item cs)) = failed (fst cs) + 1)"
    by (rule worker_one_counter)
  show ?case
    using Cons.IH [of "worker e baseURL outputDir item cs"] one by auto
qed

text \<open>
  C8. For one name a worker adds one to exactly one of the three counters and leaves
  the other two alone. When \<open>downloadWithWorkers\<close> returns, the counters sum to the
  number of names, and the error is non-nil exactly when \<open>failed\<close> is positive; it is
  then the one aggregate error, which carries the failure count, the total and the
  label. With at least one worker the function does return.
\<close>

theorem downloadWithWorkers_counts:
  fixes e baseURL outputDir item c s
  defines "c' \<equiv> fst (worker e baseURL outputDir item (c, s))"
  shows
    "((downloaded c' = downloaded c + 1 \<and> skipped c' = skipped c \<and> failed c' = failed c)
       \<or> (downloaded c' = downloaded c \<and> skipped c' = skipped c + 1 \<and> failed c' = failed c)
       \<or> (downloaded c' = downloaded c \<and> skipped c' = skipped c \<and> failed c' = failed c + 1))
   \<and> (downloadWithWorkers e files baseURL outputDir label s0 = Returned err c1 s1 \<longrightarrow>
         downloaded c1 + skipped c1 + failed c1 = int (length files)
         \<and> 0 \<le> downloaded c1 \<and> 0 \<le> skipped c1 \<and> 0 \<le> failed c1
         \<and> (err \<noteq> None \<longleftrightarrow> failed c1 > 0)
         \<and> (failed c1 > 0 \<longrightarrow> err = Some (FailedToDownload (failed c1) (length files) label)))
   \<and> (workers e > 0 \<longrightarrow>
         (\<exists>err c1 s1. downloadWithWorkers e files baseURL outputDir label s0 = Returned err c1 s1))"
proof -
  have A: "(downloaded c' = downloaded c + 1 \<and> skipped c' = skipped c \<and> failed c' = failed c)
       \<or> (downloaded c' = downloaded c \<and> skipped c' = skipped c + 1 \<and> failed c' = failed c)
       \<or> (downloaded c' = downloaded c \<and> skipped c' = skipped c \<and> failed c' = failed c + 1)"
    unfolding c'_def using worker_one_counter [of e baseURL outputDir item "(c, s)"] by simp
  define z where "z = (\<lparr>downloaded = 0, skipped = 0, failed = 0\<rparr>, s0)"
  define cf where "cf = fst (drain e baseURL outputDir files z)"
  have sum: "downloaded cf + skipped cf + failed cf = int (length files)"
      "0 \<le> downloaded cf" "0 \<le> skipped cf" "0 \<le> failed cf"
    using drain_counts [of e baseURL outputDir files z] unfolding cf_def z_def by simp_all
  have B: "downloaded c1 + skipped c1 + failed c1 = int (length files)
         \<and> 0 \<le> downloaded c1 \<and> 0 \<le> skipped c1 \<and> 0 \<le> failed c1
         \<and> (err \<noteq> None \<longleftrightarrow> failed c1 > 0)
         \<and> (failed c1 > 0 \<longrightarrow> err = Some (FailedToDownload (failed c1) (length files) label))"
    if r: "downloadWithWorkers e files baseURL outputDir label s0 = Returned err c1 s1"
  proof -
    have "c1 = cf \<and> err = (if failed cf > 0
                            then Some (FailedToDownload (failed cf) (length files) label) else None)"
      using r unfolding cf_def z_def
      by (auto simp add: downloadWithWorkers_def Let_def case_prod_beta split: if_splits)
    then show ?thesis using sum by auto
  qed
  have C: "\<exists>err c1 s1. downloadWithWorkers e files baseURL outputDir label s0 = Returned err c1 s1"
    if "workers e > 0"
    using that by (simp add: downloadWithWorkers_def Let_def case_prod_beta)
  show ?thesis using A B C by blast
qed

lemma example_run:
  "fst (drain mixedOrigin ''https://cdn.dos.zone/vcsky/fetched/audio'' ''/cache/fetched/audio''
          [''a.adf'', ''b.adf'', ''c.adf''] (\<lparr>downloaded = 0, skipped = 0, failed = 0\<rparr>, audioCache))
   = \<lparr>downloaded = 1, skipped = 1, failed = 1\<rparr>"
  by (simp add: worker_def downloadFile_def downloadClaimed_def bodyReader_def os_Stat_def
        stat_of_def os_Rename_def io_Copy_def Get_def mixedOrigin_def okResponse_def exampleEnv_def
        audioCache_def emptyState_def Let_def emit_def sync_LoadOrStore_def)

theorem downloadWithWorkers_counts_witness:
  "workers mixedOrigin > 0
   \<and> downloadWithWorkers mixedOrigin [''a.adf'', ''b.adf'', ''c.adf'']
         ''https://cdn.dos.zone/vcsky/fetched/audio'' ''/cache/fetched/audio'' ''radio'' audioCache
       = Returned (Some (FailedToDownload 1 3 ''radio''))
           \<lparr>downloaded = 1, skipped = 1, failed = 1\<rparr>
           (snd (drain mixedOrigin ''https://cdn.dos.zone/vcsky/fetched/audio'' ''/cache/fetched/audio''
                  [''a.adf'', ''b.adf'', ''c.adf'']
                  (\<lparr>downloaded = 0, skipped = 0, failed = 0\<rparr>, audioCache)))
   \<and> (1::int) + 1 + 1 = int (length [''a.adf'', ''b.adf'', ''c.adf''])
   \<and> fst (worker mixedOrigin ''https://cdn.dos.zone/vcsky/fetched/audio'' ''/cache/fetched/audio''
          ''c.adf'' (\<lparr>downloaded = 0, skipped = 0, failed = 0\<rparr>, audioCache))
       = \<lparr>downloaded = 0, skipped = 1, failed = 0\<rparr>"
proof -
  have w: "workers mixedOrigin > 0"
    by (simp add: mixedOrigin_def exampleEnv_def)
  have run: "downloadWithWorkers mixedOrigin [''a.adf'', ''b.adf'', ''c.adf'']
         ''https://cdn.dos.zone/vcsky/fetched/audio'' ''/cache/fetched/audio'' ''radio'' audioCache
       = Returned (Some (FailedToDownload 1 3 ''radio''))
           \<lparr>downloaded = 1, skipped = 1, failed = 1\<rparr>
           (snd (drain mixedOrigin ''https://cdn.dos.zone/vcsky/fetched/audio'' ''/cache/fetched/audio''
                  [''a.adf'', ''b.adf'', ''c.adf'']
                  (\<lparr>downloaded = 0, skipped = 0, failed = 0\<rparr>, audioCache)))"
    using w example_run
    by (simp add: downloadWithWorkers_def Let_def case_prod_beta del: drain.simps)
  have one: "fst (worker mixedOrigin ''https://cdn.dos.zone/vcsky/fetched/audio'' ''/cache/fetched/audio''
          ''c.adf'' (\<lparr>downloaded = 0, skipped = 0, failed = 0\<rparr>, audioCache))
       = \<lparr>downloaded = 0, skipped = 1, failed = 0\<rparr>"
    by (simp add: worker_def os_Stat_def stat_of_def mixedOrigin_def exampleEnv_def audioCache_def
          emptyState_def Let_def)
  show ?thesis
    using w run one
      downloadWithWorkers_counts [where e = mixedOrigin
        and files = "[''a.adf'', ''b.adf'', ''c.adf'']"
        and baseURL = "''https://cdn.dos.zone/vcsky/fetched/audio''"
        and outputDir = "''/cache/fetched/audio''" and label = "''radio''" and ?s0.0 = audioCache
        and item = "''c.adf''" and c = "\<lparr>downloaded = 0, skipped = 0, failed = 0\<rparr>"
        and s = audioCache
        and err = "Some (FailedToDownload 1 3 ''radio'')"
        and ?c1.0 = "\<lparr>downloaded = 1, skipped = 1, failed = 1\<rparr>"]
    by simp
qed

lemma worker_deferred:
  assumes j: "filepath_Join e outputDir item = d"
      and absent: "stat_of e (fs s) d = NotExist"
      and held: "d \<in> activeDownloads s"
  shows "worker e baseURL outputDir item (c, s)
         = (c\<lparr>downloaded := downloaded c + 1\<rparr>,
            (emit (LoadOrStore d) (emit (Stat d) (emit (Stat d) s)))
              \<lparr>activeDownloads := activeDownloads s\<rparr>)"
proof -
  have "downloadFile e (baseURL @ ''/'' @ item) d (emit (Stat d) s)
        = (None, (emit (LoadOrStore d) (emit (Stat d) (emit (Stat d) s)))
                   \<lparr>activeDownloads := activeDownloads (emit (Stat d) s)\<rparr>)"
    by (rule downloadFile_deferred) (use absent held in simp_all)
  then show ?thesis
    using absent by (simp add: worker_def Let_def os_Stat_def j)
qed

text \<open>
  C10. A nil return of \<open>downloadFile\<close> does not mean the file is there. When the file
  is absent and another fetch holds the claim, \<open>downloadFile\<close> returns nil after its
  \<open>Stat\<close> and \<open>LoadOrStore\<close>, without waiting and with the file tree as it was, so
  the file is still absent; the worker counts the name as downloaded, and a run over
  that one name returns nil with \<open>downloaded = 1\<close> and no file.
\<close>

theorem downloadFile_nil_without_file:
  assumes absent: "stat_of e (fs s) d = NotExist"
      and held: "d \<in> activeDownloads s"
  shows "fst (downloadFile e url d s) = None
       \<and> ops (snd (downloadFile e url d s)) = ops s @ [Stat d, LoadOrStore d]
       \<and> fs (snd (downloadFile e url d s)) = fs s
       \<and> stat_of e (fs (snd (downloadFile e url d s))) d = NotExist
       \<and> (filepath_Join e outputDir item = d \<longrightarrow>
            fst (worker e baseURL outputDir item (c, s)) = c\<lparr>downloaded := downloaded c + 1\<rparr>
            \<and> stat_of e (fs (snd (worker e baseURL outputDir item (c, s)))) d = NotExist)
       \<and> (filepath_Join e outputDir item = d \<and> workers e > 0 \<longrightarrow>
            (\<exists>s1. downloadWithWorkers e [item] baseURL outputDir label s
                   = Returned None \<lparr>downloaded = 1, skipped = 0, failed = 0\<rparr> s1
                 \<and> stat_of e (fs s1) d = NotExist))"
proof -
  have eq: "downloadFile e url d s
         = (None, (emit (LoadOrStore d) (emit (Stat d) s))\<lparr>activeDownloads := activeDownloads s\<rparr>)"
    by (rule downloadFile_deferred) (use absent held in simp_all)
  have A: "fst (downloadFile e url d s) = None"
      "ops (snd (downloadFile e url d s)) = ops s @ [Stat d, LoadOrStore d]"
      "fs (snd (downloadFile e url d s)) = fs s"
      "stat_of e (fs (snd (downloadFile e url d s))) d = NotExist"
    unfolding eq using absent by simp_all
  have B: "fst (worker e baseURL outputDir item (c, s)) = c\<lparr>downloaded := downloaded c + 1\<rparr>
            \<and> stat_of e (fs (snd (worker e baseURL outputDir item (c, s)))) d = NotExist"
    if j: "filepath_Join e outputDir item = d" for c
    using worker_deferred [OF j absent held, of baseURL c] absent by simp
  have C: "\<exists>s1. downloadWithWorkers e [item] baseURL outputDir label s
                   = Returned None \<lparr>downloaded = 1, skipped = 0, failed = 0\<rparr> s1
                 \<and> stat_of e (fs s1) d = NotExist"
    if j: "filepath_Join e outputDir item = d" and w: "workers e > 0"
    using worker_deferred [OF j absent held, of baseURL "\<lparr>downloaded = 0, skipped = 0, failed = 0\<rparr>"]
      absent w
    by (simp add: downloadWithWorkers_def Let_def)
  show ?thesis using A B C by blast
qed

theorem downloadFile_nil_without_file_witness:
  "stat_of exampleEnv (fs claimedState) ''/cache/a.bin'' = NotExist
   \<and> ''/cache/a.bin'' \<in> activeDownloads claimedState
   \<and> filepath_Join exampleEnv ''/cache'' ''a.bin'' = ''/cache/a.bin''
   \<and> workers exampleEnv > 0
   \<and> fst (downloadFile exampleEnv ''https://cdn.dos.zone/vcsky/a.bin'' ''/cache/a.bin'' claimedState)
       = None
   \<and> fs (snd (downloadFile exampleEnv ''https://cdn.dos.zone/vcsky/a.bin'' ''/cache/a.bin''
          claimedState)) ''/cache/a.bin'' = None
   \<and> fst (worker exampleEnv ''https://cdn.dos.zone/vcsky'' ''/cache'' ''a.bin''
          (\<lparr>downloaded = 0, skipped = 0, failed = 0\<rparr>, claimedState))
       = \<lparr>downloaded = 1, skipped = 0, failed = 0\<rparr>
   \<and> (\<exists>s1. downloadWithWorkers exampleEnv [''a.bin''] ''https://cdn.dos.zone/vcsky'' ''/cache''
             ''assets'' claimedState
           = Returned None \<lparr>downloaded = 1, skipped = 0, failed = 0\<rparr> s1
         \<and> stat_of exampleEnv (fs s1) ''/cache/a.bin'' = NotExist)"
proof -
  have h: "stat_of exampleEnv (fs claimedState) ''/cache/a.bin'' = NotExist"
      "''/cache/a.bin'' \<in> activeDownloads claimedState"
    by (simp_all add: stat_of_def exampleEnv_def claimedState_def emptyState_def)
  have j: "filepath_Join exampleEnv ''/cache'' ''a.bin'' = ''/cache/a.bin''"
      "workers exampleEnv > 0" "fs claimedState ''/cache/a.bin'' = None"
    by (simp_all add: exampleEnv_def claimedState_def emptyState_def)
  show ?thesis
    using h j
      downloadFile_nil_without_file [OF h, of "''https://cdn.dos.zone/vcsky/a.bin''" "''/cache''"
        "''a.bin''" "''https://cdn.dos.zone/vcsky''" "\<lparr>downloaded = 0, skipped = 0, failed = 0\<rparr>"
        "''assets''"]
    by simp
qed

section \<open>The claim on a destination path\<close>

lemma holders_update:
  "holders \<lparr>registry = m, at = (at c)(i := x)\<rparr>
   = (if x = Holding then insert i (holders c) else holders c - {i})"
  "holders (c\<lparr>at := (at c)(i := x)\<rparr>)
   = (if x = Holding then insert i (holders c) else holders c - {i})"
  by (auto simp add: holders_def)

text \<open>
  The invariant of the interleaved system: the registry holds exactly the paths of the
  goroutines that are in their claimed part, and no two of those have the same path.
\<close>

lemma reachable_invariant:
  assumes "reachable dest c"
  shows "registry c = dest ` holders c \<and> inj_on dest (holders c)"
  using assms
proof (induction rule: reachable.induct)
  case at_start
  show ?case by (simp add: initial_def holders_def)
next
  case (after_step c c')
  from after_step.hyps(2) show ?case
  proof (cases rule: step.cases)
    case (found i)
    then have "i \<notin> holders c" by (simp add: holders_def)
    then show ?thesis using found(1) after_step.IH by (simp add: holders_update)
  next
    case (missing i)
    then have "i \<notin> holders c" by (simp add: holders_def)
    then show ?thesis using missing(1) after_step.IH by (simp add: holders_update)
  next
    case (claim i loaded m)
    have ni: "i \<notin> holders c" using claim(2) by (simp add: holders_def)
    show ?thesis
    proof (cases loaded)
      case True
      then have "dest i \<in> registry c" "m = registry c"
        using claim(3) by (auto simp add: sync_LoadOrStore_def)
      then show ?thesis using claim(1) True ni after_step.IH by (simp add: holders_update)
    next
      case False
      then have "dest i \<notin> registry c" "m = insert (dest i) (registry c)"
        using claim(3) by (auto simp add: sync_LoadOrStore_def)
      then show ?thesis using claim(1) False after_step.IH by (auto simp add: holders_update)
    qed
  next
    case (release i)
    have i: "i \<in> holders c" using release(2) by (simp add: holders_def)
    have inj: "inj_on dest (holders c)" and reg: "registry c = dest ` holders c"
      using after_step.IH by simp_all
    have "dest ` (holders c - {i}) = dest ` holders c - {dest i}"
      using inj i by (auto simp add: inj_on_def)
    moreover have "inj_on dest (holders c - {i})"
      using inj by (rule inj_on_diff)
    ultimately show ?thesis
      unfolding release(1) using reg by (simp add: holders_update sync_Delete_def)
  qed
qed

lemma downloadFile_active:
  "activeDownloads (snd (downloadFile e url d s)) = activeDownloads s"
proof (cases "stat_of e (fs s) d = IsFile \<or> stat_of e (fs s) d = IsDir")
  case True
  then show ?thesis by (simp add: downloadFile_exists)
next
  case False
  then show ?thesis
    by (cases "d \<in> activeDownloads s")
       (simp_all add: downloadFile_deferred downloadFile_claimed Let_def)
qed

lemma downloadFile_released:
  assumes "stat_of e (fs s) d \<noteq> IsFile" "stat_of e (fs s) d \<noteq> IsDir" "d \<notin> activeDownloads s"
  shows "take 2 (drop (length (ops s)) (ops (snd (downloadFile e url d s)))) = [Stat d, LoadOrStore d]"
    and "last (ops (snd (downloadFile e url d s))) = Delete d"
    and "d \<notin> activeDownloads (snd (downloadFile e url d s))"
proof -
  define s3 where "s3 = (emit (LoadOrStore d) (emit (Stat d) s))
                       \<lparr>activeDownloads := insert d (activeDownloads s), fs := others e (fs s)\<rparr>"
  obtain rest where rest: "ops (snd (downloadClaimed e url d s3)) = ops s3 @ Stat d # rest"
    by (rule downloadClaimed_ops [of e url d s3])
  have eq: "ops (snd (downloadFile e url d s)) = ops s @ [Stat d, LoadOrStore d] @ Stat d # rest @ [Delete d]"
    using assms downloadFile_claimed [of e s d url] rest
    by (simp add: Let_def s3_def)
  show "take 2 (drop (length (ops s)) (ops (snd (downloadFile e url d s)))) = [Stat d, LoadOrStore d]"
    unfolding eq by simp
  show "last (ops (snd (downloadFile e url d s))) = Delete d"
    unfolding eq by simp
  show "d \<notin> activeDownloads (snd (downloadFile e url d s))"
    using assms(3) by (simp add: downloadFile_active)
qed

text \<open>
  C5. In every state the interleaved callers can reach, no two goroutines hold the
  claim on one path; while a goroutine holds it the path is in the registry, so every
  other \<open>LoadOrStore\<close> on that path reports it present, and a path nobody holds is
  absent, so the next \<open>LoadOrStore\<close> on it succeeds. \<open>downloadFile\<close> leaves the registry
  as it found it whatever it returns; when it took the claim (file absent, claim free)
  its last operation is the \<open>Delete\<close> of its path, on success, on the early return of
  the re-check and on every error alike.
\<close>

theorem claim_exclusive_and_released:
  "(reachable dest c \<longrightarrow>
      (\<forall>i j. at c i = Holding \<and> at c j = Holding \<and> dest i = dest j \<longrightarrow> i = j)
      \<and> (\<forall>j. at c j = Holding \<longrightarrow> dest j \<in> registry c
               \<and> fst (sync_LoadOrStore (dest j) (registry c)))
      \<and> (\<forall>p. (\<forall>j. at c j = Holding \<longrightarrow> dest j \<noteq> p) \<longrightarrow>
               \<not> fst (sync_LoadOrStore p (registry c))))
   \<and> activeDownloads (snd (downloadFile e url d s)) = activeDownloads s
   \<and> (stat_of e (fs s) d \<noteq> IsFile \<and> stat_of e (fs s) d \<noteq> IsDir \<and> d \<notin> activeDownloads s \<longrightarrow>
        take 2 (drop (length (ops s)) (ops (snd (downloadFile e url d s)))) = [Stat d, LoadOrStore d]
        \<and> last (ops (snd (downloadFile e url d s))) = Delete d
        \<and> d \<notin> activeDownloads (snd (downloadFile e url d s)))"
proof -
  have A: "(\<forall>i j. at c i = Holding \<and> at c j = Holding \<and> dest i = dest j \<longrightarrow> i = j)
      \<and> (\<forall>j. at c j = Holding \<longrightarrow> dest j \<in> registry c
               \<and> fst (sync_LoadOrStore (dest j) (registry c)))
      \<and> (\<forall>p. (\<forall>j. at c j = Holding \<longrightarrow> dest j \<noteq> p) \<longrightarrow>
               \<not> fst (sync_LoadOrStore p (registry c)))"
    if r: "reachable dest c"
  proof -
    have reg: "registry c = dest ` holders c" and inj: "inj_on dest (holders c)"
      using reachable_invariant [OF r] by simp_all
    have 1: "\<forall>i j. at c i = Holding \<and> at c j = Holding \<and> dest i = dest j \<longrightarrow> i = j"
      using inj by (auto simp add: inj_on_def holders_def)
    have 2: "\<forall>j. at c j = Holding \<longrightarrow> dest j \<in> registry c
               \<and> fst (sync_LoadOrStore (dest j) (registry c))"
      unfolding reg by (auto simp add: holders_def)
    have 3: "\<forall>p. (\<forall>j. at c j = Holding \<longrightarrow> dest j \<noteq> p) \<longrightarrow>
               \<not> fst (sync_LoadOrStore p (registry c))"
      unfolding reg by (auto simp add: holders_def)
    show ?thesis using 1 2 3 by blast
  qed
  have B: "activeDownloads (snd (downloadFile e url d s)) = activeDownloads s"
    by (rule downloadFile_active)
  have C: "take 2 (drop (length (ops s)) (ops (snd (downloadFile e url d s)))) = [Stat d, LoadOrStore d]
        \<and> last (ops (snd (downloadFile e url d s))) = Delete d
        \<and> d \<notin> activeDownloads (snd (downloadFile e url d s))"
    if "stat_of e (fs s) d \<noteq> IsFile \<and> stat_of e (fs s) d \<noteq> IsDir \<and> d \<notin> activeDownloads s"
    using that downloadFile_released [of e s d url] by simp
  show ?thesis using A B C by blast
qed

lemma twoCallers_reachable: "reachable (\<lambda>_. ''/cache/a.bin'') twoCallers"
proof -
  let ?dest = "\<lambda>_::nat. ''/cache/a.bin''"
  define c1 where "c1 = \<lparr>registry = {}, at = (\<lambda>_. AtStat)(0 := AtClaim)\<rparr>"
  define c2 where "c2 = \<lparr>registry = {''/cache/a.bin''}, at = (\<lambda>_. AtStat)(0 := Holding)\<rparr>"
  define c3 where "c3 = \<lparr>registry = {''/cache/a.bin''}, at = (\<lambda>_. AtStat)(0 := Holding, 1 := AtClaim)\<rparr>"
  have s1: "step ?dest initial c1"
    using step.missing [of initial 0 ?dest] by (simp add: initial_def c1_def)
  have s2: "step ?dest c1 c2"
    using step.claim [of c1 0 ?dest False "{''/cache/a.bin''}"]
    by (simp add: c1_def c2_def sync_LoadOrStore_def)
  have s3: "step ?dest c2 c3"
    using step.missing [of c2 1 ?dest] by (simp add: c2_def c3_def)
  have s4: "step ?dest c3 twoCallers"
    using step.claim [of c3 1 ?dest True "{''/cache/a.bin''}"]
    by (simp add: c3_def twoCallers_def sync_LoadOrStore_def)
  show ?thesis
    using reachable.at_start [of ?dest] s1 s2 s3 s4 by (blast intro: reachable.after_step)
qed

theorem claim_exclusive_and_released_witness:
  "reachable (\<lambda>_. ''/cache/a.bin'') twoCallers
   \<and> at twoCallers 0 = Holding \<and> at twoCallers 1 = Done
   \<and> fst (sync_LoadOrStore ''/cache/a.bin'' (registry twoCallers))
   \<and> \<not> fst (sync_LoadOrStore ''/cache/b.bin'' (registry twoCallers))
   \<and> stat_of exampleEnv (fs emptyState) ''/cache/a.bin'' = NotExist
   \<and> ''/cache/a.bin'' \<notin> activeDownloads emptyState
   \<and> fst (downloadFile exampleEnv ''https://cdn.dos.zone/vcsky/a.bin'' ''/cache/a.bin'' emptyState)
       = Some TransportError
   \<and> last (ops (snd (downloadFile exampleEnv ''https://cdn.dos.zone/vcsky/a.bin'' ''/cache/a.bin''
                       emptyState))) = Delete ''/cache/a.bin''
   \<and> activeDownloads (snd (downloadFile exampleEnv ''https://cdn.dos.zone/vcsky/a.bin''
                       ''/cache/a.bin'' emptyState)) = {}"
proof -
  have h: "at twoCallers 0 = Holding" "at twoCallers 1 = Done"
      "\<forall>j. at twoCallers j = Holding \<longrightarrow> ''/cache/a.bin'' \<noteq> ''/cache/b.bin''"
    by (simp_all add: twoCallers_def)
  have f: "stat_of exampleEnv (fs emptyState) ''/cache/a.bin'' = NotExist"
      "''/cache/a.bin'' \<notin> activeDownloads emptyState" "activeDownloads emptyState = {}"
    by (simp_all add: stat_of_def exampleEnv_def emptyState_def)
  have r: "fst (downloadFile exampleEnv ''https://cdn.dos.zone/vcsky/a.bin'' ''/cache/a.bin'' emptyState)
       = Some TransportError"
    by (simp add: downloadFile_def downloadClaimed_def os_Stat_def stat_of_def exampleEnv_def
          emptyState_def Let_def sync_LoadOrStore_def)
  note t = claim_exclusive_and_released [where dest = "\<lambda>_. ''/cache/a.bin''" and c = twoCallers
      and e = exampleEnv and url = "''https://cdn.dos.zone/vcsky/a.bin''" and d = "''/cache/a.bin''"
      and s = emptyState]
  have a: "fst (sync_LoadOrStore ''/cache/a.bin'' (registry twoCallers))"
    using t twoCallers_reachable h(1) by blast
  have b: "\<not> fst (sync_LoadOrStore ''/cache/b.bin'' (registry twoCallers))"
    using t twoCallers_reachable h(3) by blast
  show ?thesis
    using t twoCallers_reachable h(1,2) a b f r by simp
qed
section \<open>Compressed variants in the cache\<close>



















section \<open>Decompressing while caching\<close>

text \<open>
  When the URL handed to \<open>proxyAndCache\<close> ends in \<open>.br\<close> and the client does not accept
  brotli, and the shared pass ends without error and the rename succeeds: the client has
  received the decoder's output, the temp file has received the limited body byte for
  byte, and the cache entry is that same content. One fetch and one read of the body
  are recorded.
\<close>

lemma proxyAndCache_tee_while_decompressing:
  fixes e r url localPath s resp
  defines "lb \<equiv> LimitReader (Body resp, brokenBody resp) maxProxySize"
      and "tmp \<equiv> tempName e localPath"
      and "s' \<equiv> proxyAndCache e r url localPath s"
  assumes reach: "reachesSharedPass e r url localPath s resp"
      and br: "HasSuffix url ''.br''"
      and nobr: "\<not> Contains (ToLower e (Get (reqHeader r) ''Accept-Encoding'')) ''br''"
      and ok: "\<not> snd (snd (sharedPass e True lb tmp))"
      and ren: "\<not> renameFails e tmp localPath"
  shows "body (w s') = body (w s) @ out (brotli_Reader e (fst lb))
       \<and> teed (diskLimit e tmp) lb (fst (snd (sharedPass e True lb tmp))) = fst lb
       \<and> fs s' = ((fs s)(tmp := None))(localPath \<mapsto> File (fst lb))
       \<and> (length (Body resp) \<le> maxProxySize \<longrightarrow> fs s' localPath = Some (File (Body resp)))
       \<and> ops s' = ops (snd (serveLocalFile e r localPath s))
                   @ [Load localPath, Fetch url, MkdirAll (filepath_Dir e localPath),
                      CreateTemp (filepath_Dir e localPath),
                      ReadBody (length (fst lb)), Rename tmp localPath]"
proof -
  have nd: "(HasSuffix url ''.br''
              \<and> \<not> Contains (ToLower e (Get (reqHeader r) ''Accept-Encoding'')) ''br'') = True"
    using br nobr by simp
  obtain s0 where s0: "s' = teeAndCommit e localPath True lb tmp s0"
      "fs s0 = (fs s)(tmp \<mapsto> File [])"
      "ops s0 = ops (snd (serveLocalFile e r localPath s))
                @ [Load localPath, Fetch url, MkdirAll (filepath_Dir e localPath),
                   CreateTemp (filepath_Dir e localPath)]"
      "body (w s0) = body (w s)"
      "status (w s) = 0 \<longrightarrow> status (w s0) = 200"
    by (rule reachesSharedPass_caching [OF reach, unfolded nd, folded lb_def tmp_def s'_def])
  have a: "body (w s') = body (w s) @ out (brotli_Reader e (fst lb))"
    unfolding s0(1) using teeAndCommit_commit(3) [OF ok ren, of s0] s0(4) by simp
  have b: "teed (diskLimit e tmp) lb (fst (snd (sharedPass e True lb tmp))) = fst lb"
    using sharedPass_complete(1) [OF ok] .
  have c: "fs s' = ((fs s)(tmp := None))(localPath \<mapsto> File (fst lb))"
    unfolding s0(1) using teeAndCommit_commit(1) [OF ok ren, of s0] s0(2) by simp
  have d: "length (Body resp) \<le> maxProxySize \<longrightarrow> fs s' localPath = Some (File (Body resp))"
    using c LimitReader_within [of "(Body resp, brokenBody resp)" maxProxySize]
    by (simp add: lb_def)
  have f: "ops s' = ops (snd (serveLocalFile e r localPath s))
                   @ [Load localPath, Fetch url, MkdirAll (filepath_Dir e localPath),
                      CreateTemp (filepath_Dir e localPath),
                      ReadBody (length (fst lb)), Rename tmp localPath]"
    unfolding s0(1) using teeAndCommit_commit(2) [OF ok ren, of s0] s0(3) by simp
  show ?thesis by (intro conjI a b c d f)
qed

text \<open>
  C7, at an input where the code does not do what is claimed. The request is for
  \<open>/vcsky/data.br?v=1\<close> from a client that does not accept brotli, and nothing is
  cached. The path ends in \<open>.br\<close>, but \<open>proxyAndCache\<close> looks for the suffix on the URL
  with the query string appended, so \<open>needDecompress\<close> is false: the client gets the
  compressed bytes as the origin sent them, not the decoder's output. The cache entry
  \<open>data.br\<close> holds those bytes; \<open>serveLocalFile\<close>, which looks for the suffix on the
  local path, decodes them when the same request finds the entry in the cache.
\<close>

theorem proxyAndCache_query_string_not_decompressed:
  "HasSuffix (TrimPrefix (urlPath versionedRequest) ''/vcsky/'') ''.br''
   \<and> rawQuery versionedRequest = ''v=1''
   \<and> \<not> Contains (ToLower (origin (okResponse ''hello''))
                    (Get (reqHeader versionedRequest) ''Accept-Encoding'')) ''br''
   \<and> out (brotli_Reader (origin (okResponse ''hello'')) ''hello'') = ''hheelllloo''
   \<and> status (w (handleVcsky (origin (okResponse ''hello'')) versionedRequest emptyState)) = 200
   \<and> body (w (handleVcsky (origin (okResponse ''hello'')) versionedRequest emptyState)) = ''hello''
   \<and> fs (handleVcsky (origin (okResponse ''hello'')) versionedRequest emptyState) ''/cache/data.br''
       = Some (File ''hello'')
   \<and> ops (handleVcsky (origin (okResponse ''hello'')) versionedRequest emptyState)
       = [Stat ''/cache/data.br'', Stat ''/cache/data.br'', Load ''/cache/data.br'',
          Fetch ''https://cdn.dos.zone/vcsky/data.br?v=1'',
          MkdirAll ''/cache'', CreateTemp ''/cache'', ReadBody 5,
          Rename ''/cache/.tmp-1'' ''/cache/data.br'']
   \<and> body (w (handleVcsky (origin (okResponse ''hello'')) versionedRequest cachedBr)) = ''hheelllloo''
   \<and> ops (handleVcsky (origin (okResponse ''hello'')) versionedRequest cachedBr)
       = [Stat ''/cache/data.br'', Open ''/cache/data.br'']"
  by (simp add: handleVcsky_def proxyAndCache_def serveLocalFile_def serveResolved_def
        teeAndCommit_def sharedPass_def copyToClient_def TeeReader_def io_Copy_def
        LimitReader_def decompress_def teed_def
        versionedRequest_def plainRequest_def cachedBr_def emptyState_def emptyResponse_def
        origin_def okResponse_def exampleEnv_def maxProxySize_def
        Get_def lowerASCII_def HasSuffix_def HasPrefix_def TrimPrefix_def TrimSuffix_def
        os_Stat_def stat_of_def os_Open_def os_Rename_def os_Remove_def
        sync_Load_def copyHeaders_def forwardedHeaders_def contentTypeFor_def
        setHeader_def delHeader_def WriteHeader_def Write_def emit_def Let_def)

end
